theory Spec2Isabelle
  imports Main
begin

section \<open>Values, exceptions and the per-process state\<close>

text \<open>
  \<^verbatim>\<open>grpc.StatusCode\<close> is an enumeration of the transport library. The code names only
  \<^verbatim>\<open>UNKNOWN\<close> itself; the other members reach it through \<^verbatim>\<open>GRPCException.status\<close>
  and through user handlers.
\<close>

datatype StatusCode =
    OK | CANCELLED | UNKNOWN | INVALID_ARGUMENT | DEADLINE_EXCEEDED | NOT_FOUND
  | ALREADY_EXISTS | PERMISSION_DENIED | RESOURCE_EXHAUSTED | FAILED_PRECONDITION
  | ABORTED | OUT_OF_RANGE | UNIMPLEMENTED | INTERNAL | UNAVAILABLE | DATA_LOSS
  | UNAUTHENTICATED

fun status_name :: "StatusCode \<Rightarrow> string" where
  "status_name OK = ''OK''"
| "status_name CANCELLED = ''CANCELLED''"
| "status_name UNKNOWN = ''UNKNOWN''"
| "status_name INVALID_ARGUMENT = ''INVALID_ARGUMENT''"
| "status_name DEADLINE_EXCEEDED = ''DEADLINE_EXCEEDED''"
| "status_name NOT_FOUND = ''NOT_FOUND''"
| "status_name ALREADY_EXISTS = ''ALREADY_EXISTS''"
| "status_name PERMISSION_DENIED = ''PERMISSION_DENIED''"
| "status_name RESOURCE_EXHAUSTED = ''RESOURCE_EXHAUSTED''"
| "status_name FAILED_PRECONDITION = ''FAILED_PRECONDITION''"
| "status_name ABORTED = ''ABORTED''"
| "status_name OUT_OF_RANGE = ''OUT_OF_RANGE''"
| "status_name UNIMPLEMENTED = ''UNIMPLEMENTED''"
| "status_name INTERNAL = ''INTERNAL''"
| "status_name UNAVAILABLE = ''UNAVAILABLE''"
| "status_name DATA_LOSS = ''DATA_LOSS''"
| "status_name UNAUTHENTICATED = ''UNAUTHENTICATED''"

text \<open>
  One entry of \<^verbatim>\<open>ValidationError.errors()\<close>. The handler interpolates the entries
  \<^verbatim>\<open>'msg'\<close>, \<^verbatim>\<open>'loc'\<close> and \<^verbatim>\<open>'input'\<close> into an f-string, so the last two are kept as
  the text that \<^verbatim>\<open>str\<close> gives for them.
\<close>

datatype error_details =
  ErrorDetails (err_msg: string) (err_loc: string) (err_input: string)

datatype exc_payload =
    NoPayload
  | GrpcPayload StatusCode string
  | ValidationPayload "error_details list"

text \<open>
  An exception instance: the name of its class (\<^verbatim>\<open>type(exc)\<close>), the names of the proper
  ancestors of that class, the text \<^verbatim>\<open>str(exc)\<close>, and the attributes the handlers read.
\<close>

datatype pyexc =
  PyExc (exc_kind: string) (exc_bases: "string list") (exc_text: string)
        (exc_payload: exc_payload)

definition isinstance_exc :: "pyexc \<Rightarrow> string \<Rightarrow> bool" where
  "isinstance_exc e cls = (exc_kind e = cls \<or> cls \<in> set (exc_bases e))"

definition builtin_exc :: "string \<Rightarrow> string \<Rightarrow> pyexc" where
  "builtin_exc kind text = PyExc kind [''Exception'', ''BaseException''] text NoPayload"

definition StopIteration :: pyexc where
  "StopIteration = builtin_exc ''StopIteration'' []"

definition StopAsyncIteration :: pyexc where
  "StopAsyncIteration = builtin_exc ''StopAsyncIteration'' []"

definition TypeError :: "string \<Rightarrow> pyexc" where
  "TypeError text = builtin_exc ''TypeError'' text"

definition AttributeError :: "string \<Rightarrow> pyexc" where
  "AttributeError text = builtin_exc ''AttributeError'' text"

definition RuntimeError :: "string \<Rightarrow> pyexc" where
  "RuntimeError text = builtin_exc ''RuntimeError'' text"

definition ValueError :: "string \<Rightarrow> pyexc" where
  "ValueError text = builtin_exc ''ValueError'' text"

definition IndexError :: "string \<Rightarrow> pyexc" where
  "IndexError text =
     PyExc ''IndexError'' [''LookupError'', ''Exception'', ''BaseException''] text NoPayload"

text \<open>\<^verbatim>\<open>GRPCException.__init__\<close>: keeps status and details, and passes
  \<^verbatim>\<open>f"{status.name}: {details}"\<close> to \<^verbatim>\<open>Exception.__init__\<close>.\<close>

definition GRPCException :: "StatusCode \<Rightarrow> string \<Rightarrow> pyexc" where
  "GRPCException status details =
     PyExc ''GRPCException'' [''Exception'', ''BaseException'']
           (status_name status @ '': '' @ details) (GrpcPayload status details)"

text \<open>
  The values that flow through a call. A generator object is a reference into the store of
  generator objects; a coroutine object of a dependency carries what awaiting it gives;
  a streaming request is an iterator over its messages, and \<open>PValidatingIter\<close> is the
  generator \<^verbatim>\<open>validate_async_iterator_request()\<close> over them, which validates each
  message against the named model when the endpoint asks for it.
\<close>

datatype pyval =
    PNone
  | PStr string
  | PInt int
  | PDict "(string \<times> pyval) list"
  | PMessage string "(string \<times> pyval) list"
  | PModel string "(string \<times> pyval) list"
  | PContext
  | PAsyncIter "pyval list"
  | PValidatingIter string "pyval list"
  | PGen nat
  | PAsyncGen nat
  | PCoro "pyexc + pyval"

fun isgenerator :: "pyval \<Rightarrow> bool" where
  "isgenerator (PGen _) = True"
| "isgenerator _ = False"

fun isasyncgen :: "pyval \<Rightarrow> bool" where
  "isasyncgen (PAsyncGen _) = True"
| "isasyncgen _ = False"

fun iscoroutine :: "pyval \<Rightarrow> bool" where
  "iscoroutine (PCoro _) = True"
| "iscoroutine _ = False"

fun isdict :: "pyval \<Rightarrow> bool" where
  "isdict (PDict _) = True"
| "isdict _ = False"

text \<open>\<^verbatim>\<open>isinstance(response, context.output_type)\<close>: a message of the wire class.\<close>

fun isinstance_msg :: "pyval \<Rightarrow> string \<Rightarrow> bool" where
  "isinstance_msg (PMessage cls _) output_type = (cls = output_type)"
| "isinstance_msg _ output_type = False"

text \<open>
  A generator object: the values it has still to yield, the exception its body ends with
  (none when it just returns), and whether it has finished.
\<close>

datatype genobj =
  GenObj (pending: "pyval list") (final: "pyexc option") (finished: bool)

text \<open>What the program does that a caller can observe, in the order it happens.\<close>

datatype event =
    Called string
  | NextCalled nat
  | Aborted StatusCode string

text \<open>
  The mutable state one registered method works on: the trace, the store of generator
  objects, the list \<^verbatim>\<open>Depends._cached_dependencies\<close> of each \<^verbatim>\<open>Depends\<close> instance, and
  the list \<^verbatim>\<open>Dependencies._cached_dependencies\<close> of the method's \<^verbatim>\<open>Dependencies\<close>.
\<close>

record pystate =
  trace :: "event list"
  gens :: "genobj list"
  depends_cached :: "nat \<Rightarrow> pyval list"
  dependencies_cached :: "pyval list"

definition init_state :: pystate where
  "init_state = \<lparr>trace = [], gens = [], depends_cached = (\<lambda>_. []), dependencies_cached = []\<rparr>"

type_synonym 'a py = "pystate \<Rightarrow> (pyexc + 'a) \<times> pystate"

definition emit :: "event \<Rightarrow> pystate \<Rightarrow> pystate" where
  "emit ev s = s\<lparr>trace := trace s @ [ev]\<rparr>"

definition aborts :: "pystate \<Rightarrow> (StatusCode \<times> string) list" where
  "aborts s = concat (map (\<lambda>ev. case ev of Aborted c d \<Rightarrow> [(c, d)] | _ \<Rightarrow> []) (trace s))"

section \<open>The execution context\<close>

text \<open>
  The transport's call handle is outside the repository. What its \<^verbatim>\<open>abort\<close> does after
  taking the status is a parameter: \<open>abort_raises\<close> is the exception it raises, if any.
\<close>

record ServicerContext =
  abort_raises :: "pyexc option"

record ControllerContext =
  grpc_context :: ServicerContext
  controller_method :: string
  input_type :: string
  output_type :: string
  scheduler :: bool

datatype ctx = Servicer ServicerContext | Controller ControllerContext

definition grpc_abort :: "ServicerContext \<Rightarrow> StatusCode \<Rightarrow> string \<Rightarrow> pyval py" where
  "grpc_abort g code details s =
     (case abort_raises g of
        Some e \<Rightarrow> (Inl e, emit (Aborted code details) s)
      | None \<Rightarrow> (Inr PNone, emit (Aborted code details) s))"

text \<open>\<^verbatim>\<open>ControllerContext.abort\<close>\<close>

definition abort :: "ControllerContext \<Rightarrow> StatusCode \<Rightarrow> string \<Rightarrow> pyval py" where
  "abort c code details s = grpc_abort (grpc_context c) code details s"

record method_descriptor =
  md_name :: string
  md_input_type :: string
  md_output_type :: string

text \<open>\<^verbatim>\<open>ControllerContext.__init__\<close>\<close>

definition ControllerContext_init ::
  "ServicerContext \<Rightarrow> string \<Rightarrow> method_descriptor \<Rightarrow> ControllerContext" where
  "ControllerContext_init g method_name md =
     \<lparr>grpc_context = g, controller_method = method_name,
      input_type = md_input_type md, output_type = md_output_type md, scheduler = False\<rparr>"

section \<open>Exception handlers\<close>

type_synonym handler = "pyval \<Rightarrow> ControllerContext \<Rightarrow> pyexc \<Rightarrow> pyval py"

text \<open>\<^verbatim>\<open>ExceptionsHandlers._grpc_exception_handler\<close>\<close>

definition grpc_exception_handler :: handler where
  "grpc_exception_handler request context exc s =
     (case exc_payload exc of
        GrpcPayload status details \<Rightarrow> abort context status details s
      | _ \<Rightarrow> (Inl (AttributeError ''status''), s))"

text \<open>\<^verbatim>\<open>ExceptionsHandlers._pydantic_exception_handler\<close>\<close>

definition pydantic_exception_handler :: handler where
  "pydantic_exception_handler request context exc s =
     (case exc_payload exc of
        ValidationPayload errors \<Rightarrow>
          (case errors of
             [] \<Rightarrow> (Inl (IndexError ''list index out of range''), s)
           | exception # _ \<Rightarrow>
               abort context UNKNOWN
                 (err_msg exception @ ''. Location: '' @ err_loc exception
                    @ ''. Input: '' @ err_input exception) s)
      | _ \<Rightarrow> (Inl (AttributeError ''errors''), s))"

text \<open>\<^verbatim>\<open>base_exception_handlers\<close>: keyed by the class the handler's \<^verbatim>\<open>exc\<close> parameter is
  annotated with.\<close>

definition base_exception_handlers :: "string \<rightharpoonup> handler" where
  "base_exception_handlers =
     [''GRPCException'' \<mapsto> grpc_exception_handler,
      ''ValidationError'' \<mapsto> pydantic_exception_handler]"

text \<open>A pydantic \<^verbatim>\<open>ValidationError\<close> (a subclass of \<^verbatim>\<open>ValueError\<close>) with the given errors.\<close>

definition ValidationError :: "string \<Rightarrow> error_details list \<Rightarrow> pyexc" where
  "ValidationError text errors =
     PyExc ''ValidationError'' [''ValueError'', ''Exception'', ''BaseException''] text
           (ValidationPayload errors)"

text \<open>
  The statuses that blame the caller's request, as the specification uses the word
  "client-error status"; \<^verbatim>\<open>UNKNOWN\<close> is the status it calls the generic unknown status.
\<close>

fun spec_client_error_status :: "StatusCode \<Rightarrow> bool" where
  "spec_client_error_status INVALID_ARGUMENT = True"
| "spec_client_error_status NOT_FOUND = True"
| "spec_client_error_status ALREADY_EXISTS = True"
| "spec_client_error_status PERMISSION_DENIED = True"
| "spec_client_error_status FAILED_PRECONDITION = True"
| "spec_client_error_status OUT_OF_RANGE = True"
| "spec_client_error_status UNAUTHENTICATED = True"
| "spec_client_error_status _ = False"

section \<open>Functions, generators and coroutines\<close>

type_synonym kwargs = "string \<rightharpoonup> pyval"

text \<open>
  A function supplied by the user, by the way it is defined: \<^verbatim>\<open>def\<close> (the body runs at the
  call and returns or raises), \<^verbatim>\<open>async def\<close> (the call gives a coroutine object),
  \<^verbatim>\<open>def\<close> with \<^verbatim>\<open>yield\<close> (the call gives a generator object that yields the values
  and then ends, normally or with an exception), \<^verbatim>\<open>async def\<close> with \<^verbatim>\<open>yield\<close>.
\<close>

datatype fbody =
    PlainDef "kwargs \<Rightarrow> pyexc + pyval"
  | AsyncDef "kwargs \<Rightarrow> pyexc + pyval"
  | GenDef "kwargs \<Rightarrow> pyval list \<times> pyexc option"
  | AsyncGenDef "kwargs \<Rightarrow> pyval list \<times> pyexc option"

text \<open>
  A dependency function with its signature: each parameter has a default that is either a
  \<^verbatim>\<open>Depends(f)\<close> marker, of which \<^verbatim>\<open>resolve_dependencies\<close> reads \<^verbatim>\<open>.dependency\<close>, or
  another value. The function's identity is its name.
\<close>

datatype producer =
  Producer (pname: string) (pparams: "(string \<times> pdefault) list") (pbody: fbody)
and pdefault =
    DependsOn producer
  | Default pyval

definition new_gen :: "pyval list \<times> pyexc option \<Rightarrow> pystate \<Rightarrow> nat \<times> pystate" where
  "new_gen ys s = (length (gens s), s\<lparr>gens := gens s @ [GenObj (fst ys) (snd ys) False]\<rparr>)"

text \<open>The call \<^verbatim>\<open>func(**kwargs)\<close>.\<close>

definition call_fn :: "string \<Rightarrow> fbody \<Rightarrow> kwargs \<Rightarrow> pyval py" where
  "call_fn name body kw s =
     (let s1 = emit (Called name) s in
      case body of
        PlainDef f \<Rightarrow> (f kw, s1)
      | AsyncDef f \<Rightarrow> (Inr (PCoro (f kw)), s1)
      | GenDef g \<Rightarrow> (case new_gen (g kw) s1 of (i, s2) \<Rightarrow> (Inr (PGen i), s2))
      | AsyncGenDef g \<Rightarrow> (case new_gen (g kw) s1 of (i, s2) \<Rightarrow> (Inr (PAsyncGen i), s2)))"

text \<open>
  One step of the generator object \<open>i\<close>: it yields its next value, or ends (with its own
  exception the first time, if it has one, and with the exhaustion signal \<open>stop\<close>
  otherwise and ever after). References are only made by \<open>new_gen\<close>, so \<open>i\<close> is in range.
\<close>

definition advance :: "nat \<Rightarrow> pyexc \<Rightarrow> pyval py" where
  "advance i stop s =
     (let s1 = emit (NextCalled i) s in
      if i < length (gens s1) then
        (case gens s1 ! i of
           GenObj (v # vs) fin fd \<Rightarrow> (Inr v, s1\<lparr>gens := (gens s1)[i := GenObj vs fin fd]\<rparr>)
         | GenObj [] fin fd \<Rightarrow>
             (if fd then (Inl stop, s1)
              else (case fin of None \<Rightarrow> Inl stop | Some e \<Rightarrow> Inl e,
                    s1\<lparr>gens := (gens s1)[i := GenObj [] fin True]\<rparr>)))
      else (Inl stop, s1))"

fun next_py :: "pyval \<Rightarrow> pyval py" where
  "next_py (PGen i) s = advance i StopIteration s"
| "next_py _ s = (Inl (TypeError ''object is not an iterator''), s)"

fun anext_py :: "pyval \<Rightarrow> pyval py" where
  "anext_py (PAsyncGen i) s = advance i StopAsyncIteration s"
| "anext_py _ s = (Inl (TypeError ''object is not an async iterator''), s)"

fun await_py :: "pyval \<Rightarrow> pyval py" where
  "await_py (PCoro r) s = (r, s)"
| "await_py _ s = (Inl (TypeError ''object can not be used in await expression''), s)"

text \<open>
  A \<^verbatim>\<open>StopIteration\<close> that leaves the frame of a coroutine becomes a \<^verbatim>\<open>RuntimeError\<close>.
  Every function of the repository on the path of a call is a coroutine or an asynchronous
  generator, so the conversion is written where such an exception can first reach one of
  their frames: at the calls of user functions and at \<^verbatim>\<open>next\<close>, \<^verbatim>\<open>anext\<close> and
  \<^verbatim>\<open>await\<close>. Handlers and middlewares supplied by the user are coroutines themselves: what
  they raise in the model is what their caller sees.
\<close>

definition coroutine_boundary :: "pyexc + 'a \<Rightarrow> pyexc + 'a" where
  "coroutine_boundary r =
     (case r of
        Inl e \<Rightarrow> (if isinstance_exc e ''StopIteration''
                  then Inl (RuntimeError ''coroutine raised StopIteration'') else Inl e)
      | Inr v \<Rightarrow> Inr v)"

section \<open>Dependency resolution\<close>

text \<open>
  A \<^verbatim>\<open>Depends\<close> instance that is the default of an endpoint parameter. Its list
  \<^verbatim>\<open>_cached_dependencies\<close> is \<open>depends_cached s (dep_id d)\<close>.
\<close>

record Depends =
  dep_id :: nat
  dependency :: producer

text \<open>The tail of \<^verbatim>\<open>Depends.resolve_dependencies\<close>, from \<^verbatim>\<open>result = func(**kwargs)\<close> on.\<close>

definition call_and_unwrap :: "nat \<Rightarrow> string \<Rightarrow> fbody \<Rightarrow> kwargs \<Rightarrow> pyval py" where
  "call_and_unwrap self name body kw s =
     (case call_fn name body kw s of
        (Inl e, s1) \<Rightarrow> (coroutine_boundary (Inl e), s1)
      | (Inr result, s1) \<Rightarrow>
          if isgenerator result then
            (case next_py result
                    (s1\<lparr>depends_cached :=
                          (depends_cached s1)(self := depends_cached s1 self @ [result])\<rparr>) of
               (r, s2) \<Rightarrow> (coroutine_boundary r, s2))
          else if iscoroutine result then
            (case await_py result s1 of (r, s2) \<Rightarrow> (coroutine_boundary r, s2))
          else if isasyncgen result then
            (case anext_py result
                    (s1\<lparr>depends_cached :=
                          (depends_cached s1)(self := depends_cached s1 self @ [result])\<rparr>) of
               (r, s2) \<Rightarrow> (coroutine_boundary r, s2))
          else (Inr result, s1))"

text \<open>
  \<^verbatim>\<open>Depends.resolve_dependencies\<close>, on the instance \<open>self\<close>. The loop over the parameters is
  \<open>resolve_params\<close>; the dictionary \<open>cache\<close> is shared by reference, so it is returned.
\<close>

fun resolve_dependencies ::
  "nat \<Rightarrow> producer \<Rightarrow> kwargs \<Rightarrow> pystate \<Rightarrow> (pyexc + pyval) \<times> kwargs \<times> pystate"
and resolve_params ::
  "nat \<Rightarrow> (string \<times> pdefault) list \<Rightarrow> kwargs \<Rightarrow> kwargs \<Rightarrow> pystate
     \<Rightarrow> (pyexc + kwargs) \<times> kwargs \<times> pystate"
where
  "resolve_dependencies self (Producer name params body) cache s =
     (case resolve_params self params Map.empty cache s of
        (Inl e, cache1, s1) \<Rightarrow> (Inl e, cache1, s1)
      | (Inr kw, cache1, s1) \<Rightarrow>
          (case call_and_unwrap self name body kw s1 of (r, s2) \<Rightarrow> (r, cache1, s2)))"
| "resolve_params self [] kw cache s = (Inr kw, cache, s)"
| "resolve_params self ((name, Default v) # ps) kw cache s =
     resolve_params self ps (kw(name \<mapsto> v)) cache s"
| "resolve_params self ((name, DependsOn dep_func) # ps) kw cache s =
     (case cache (pname dep_func) of
        Some dep_value \<Rightarrow> resolve_params self ps (kw(name \<mapsto> dep_value)) cache s
      | None \<Rightarrow>
          (case resolve_dependencies self dep_func cache s of
             (Inl e, cache1, s1) \<Rightarrow> (Inl e, cache1, s1)
           | (Inr dep_value, cache1, s1) \<Rightarrow>
               resolve_params self ps (kw(name \<mapsto> dep_value))
                 (cache1(pname dep_func \<mapsto> dep_value)) s1))"

text \<open>\<^verbatim>\<open>Depends.__call__\<close>: the resolved value and the instance's list.\<close>

definition Depends_call :: "Depends \<Rightarrow> (pyval \<times> pyval list) py" where
  "Depends_call d s =
     (case resolve_dependencies (dep_id d) (dependency d) Map.empty s of
        (Inl e, _, s1) \<Rightarrow> (Inl e, s1)
      | (Inr v, _, s1) \<Rightarrow> (Inr (v, depends_cached s1 (dep_id d)), s1))"

text \<open>
  An endpoint: its name, its parameters with their defaults (none, a \<^verbatim>\<open>Depends\<close> instance,
  or another value), and its body.
\<close>

datatype edefault =
    NoDefault
  | DependsDefault Depends
  | OtherDefault pyval

record endpoint =
  ep_name :: string
  ep_params :: "(string \<times> edefault) list"
  ep_body :: fbody

record Dependencies =
  endpoint_dependencies :: "(string \<times> Depends) list"

text \<open>\<^verbatim>\<open>Dependencies._get_endpoint_dependencies\<close>\<close>

fun get_endpoint_dependencies :: "(string \<times> edefault) list \<Rightarrow> (string \<times> Depends) list" where
  "get_endpoint_dependencies [] = []"
| "get_endpoint_dependencies ((k, DependsDefault d) # ps) = (k, d) # get_endpoint_dependencies ps"
| "get_endpoint_dependencies ((k, _) # ps) = get_endpoint_dependencies ps"

text \<open>\<^verbatim>\<open>Dependencies.__init__\<close>; the instance's list starts empty in \<open>init_state\<close>.\<close>

definition Dependencies_init :: "endpoint \<Rightarrow> Dependencies" where
  "Dependencies_init ep = \<lparr>endpoint_dependencies = get_endpoint_dependencies (ep_params ep)\<rparr>"

definition extend_cached :: "pyval list \<Rightarrow> pystate \<Rightarrow> pystate" where
  "extend_cached gs s = s\<lparr>dependencies_cached := dependencies_cached s @ gs\<rparr>"

text \<open>The loop of \<^verbatim>\<open>Dependencies.get_dependencies_results\<close>.\<close>

fun dependencies_loop :: "(string \<times> Depends) list \<Rightarrow> kwargs \<Rightarrow> kwargs py" where
  "dependencies_loop [] dependencies_results s = (Inr dependencies_results, s)"
| "dependencies_loop ((param, d) # rest) dependencies_results s =
     (case Depends_call d s of
        (Inl e, s1) \<Rightarrow> (coroutine_boundary (Inl e), s1)
      | (Inr (dependency_last_handler, gen_dependencies), s1) \<Rightarrow>
          (let s2 = (if gen_dependencies \<noteq> [] then extend_cached gen_dependencies s1 else s1) in
           if isgenerator dependency_last_handler then
             (case next_py dependency_last_handler (extend_cached [dependency_last_handler] s2) of
                (Inl e, s3) \<Rightarrow> (coroutine_boundary (Inl e), s3)
              | (Inr v, s3) \<Rightarrow> dependencies_loop rest (dependencies_results(param \<mapsto> v)) s3)
           else if iscoroutine dependency_last_handler then
             (case await_py dependency_last_handler s2 of
                (Inl e, s3) \<Rightarrow> (coroutine_boundary (Inl e), s3)
              | (Inr v, s3) \<Rightarrow> dependencies_loop rest (dependencies_results(param \<mapsto> v)) s3)
           else if isasyncgen dependency_last_handler then
             (case anext_py dependency_last_handler (extend_cached [dependency_last_handler] s2) of
                (Inl e, s3) \<Rightarrow> (coroutine_boundary (Inl e), s3)
              | (Inr v, s3) \<Rightarrow> dependencies_loop rest (dependencies_results(param \<mapsto> v)) s3)
           else dependencies_loop rest (dependencies_results(param \<mapsto> dependency_last_handler)) s2))"

text \<open>\<^verbatim>\<open>Dependencies.get_dependencies_results\<close>; the caller stores the result under the key
  \<^verbatim>\<open>"dependencies_results"\<close>.\<close>

definition get_dependencies_results :: "Dependencies \<Rightarrow> kwargs py" where
  "get_dependencies_results deps s = dependencies_loop (endpoint_dependencies deps) Map.empty s"

text \<open>The cleanup loop of the wrapper made by
  \<^verbatim>\<open>Dependencies.get_close_dependencies_wrapped_endpoint\<close>.\<close>

fun close_dependencies :: "pyval list \<Rightarrow> unit py" where
  "close_dependencies [] s = (Inr (), s)"
| "close_dependencies (gen_dependency # rest) s =
     (case (if isgenerator gen_dependency then next_py gen_dependency s
            else if isasyncgen gen_dependency then anext_py gen_dependency s
            else (Inr PNone, s)) of
        (Inl e, s1) \<Rightarrow>
          (if isinstance_exc e ''StopAsyncIteration'' \<or> isinstance_exc e ''StopIteration''
           then close_dependencies rest s1 else (Inl e, s1))
      | (Inr _, s1) \<Rightarrow> close_dependencies rest s1)"

text \<open>
  The object a call returns to code that goes on to \<^verbatim>\<open>await\<close> it or to iterate it with
  \<^verbatim>\<open>async for\<close>: a coroutine object, which runs when awaited, or an asynchronous generator
  object of the store.
\<close>

datatype pyobj =
    CoroutineObj "pyval py"
  | AsyncGenObj nat

fun await_obj :: "pyobj \<Rightarrow> pyval py" where
  "await_obj (CoroutineObj c) s = c s"
| "await_obj (AsyncGenObj _) s =
     (Inl (TypeError ''object async_generator can not be used in await expression''), s)"

text \<open>
  The wrapper \<^verbatim>\<open>get_close_dependencies_wrapped_endpoint\<close> returns is an \<^verbatim>\<open>async def\<close>
  without \<^verbatim>\<open>yield\<close>: calling it gives a coroutine object, whose body is this.
\<close>

definition wrapper :: "endpoint \<Rightarrow> kwargs \<Rightarrow> pyobj" where
  "wrapper ep values =
     CoroutineObj (\<lambda>s.
       case call_fn (ep_name ep) (ep_body ep) values s of
         (Inl e, s1) \<Rightarrow> (coroutine_boundary (Inl e), s1)
       | (Inr obj, s1) \<Rightarrow>
           (case await_py obj s1 of
              (Inl e, s2) \<Rightarrow> (coroutine_boundary (Inl e), s2)
            | (Inr result, s2) \<Rightarrow>
                (case close_dependencies (dependencies_cached s2) s2 of
                   (Inl e, s3) \<Rightarrow> (Inl e, s3)
                 | (Inr _, s3) \<Rightarrow> (Inr result, s3))))"

section \<open>Methods\<close>

datatype MethodMode = UNARY_UNARY | UNARY_STREAM | STREAM_UNARY | STREAM_STREAM

text \<open>A schema class, and whether it is a subclass of pydantic's \<^verbatim>\<open>BaseModel\<close>.\<close>

datatype model = Model (model_name: string) (is_basemodel: bool)

text \<open>
  The functions of pydantic and protobuf that the methods call; they are outside the
  repository, so they are parameters of the model.
\<close>

record extern =
  model_validate :: "model \<Rightarrow> pyval \<Rightarrow> pyexc + pyval"
  model_dump_json :: "pyval \<Rightarrow> string"
  json_to_message :: "string \<Rightarrow> string \<Rightarrow> pyexc + pyval"
  dict_to_message :: "pyval \<Rightarrow> string \<Rightarrow> pyexc + pyval"
  message_to_dict :: "pyval \<Rightarrow> pyval"

text \<open>
  A \<^verbatim>\<open>BaseMethod\<close>. \<open>m_endpoint\<close> is the endpoint as registered; the attribute
  \<^verbatim>\<open>self.endpoint\<close> of the source is \<open>wrapper (m_endpoint m)\<close>.
\<close>

record Method =
  m_name :: string
  m_mode :: MethodMode
  m_endpoint :: endpoint
  m_dependencies :: Dependencies
  request_model :: "model option"
  response_model :: "model option"
  description :: string
  request_param :: string
  context_param :: "string option"

definition is_request_iterable :: "Method \<Rightarrow> bool" where
  "is_request_iterable m = (m_mode m = STREAM_UNARY \<or> m_mode m = STREAM_STREAM)"

definition is_response_iterable :: "Method \<Rightarrow> bool" where
  "is_response_iterable m = (m_mode m = UNARY_STREAM \<or> m_mode m = STREAM_STREAM)"

text \<open>\<^verbatim>\<open>str.split(delimiter)\<close>, \<^verbatim>\<open>str.capitalize()\<close> on ASCII text, and \<^verbatim>\<open>to_pascal_case\<close>.\<close>

fun split_on :: "char \<Rightarrow> string \<Rightarrow> string list" where
  "split_on d [] = [[]]"
| "split_on d (c # cs) =
     (if c = d then [] # split_on d cs
      else (case split_on d cs of w # ws \<Rightarrow> (c # w) # ws | [] \<Rightarrow> [[c]]))"

definition upper_char :: "char \<Rightarrow> char" where
  "upper_char c =
     (case map_of (zip ''abcdefghijklmnopqrstuvwxyz'' ''ABCDEFGHIJKLMNOPQRSTUVWXYZ'') c of
        Some u \<Rightarrow> u | None \<Rightarrow> c)"

definition lower_char :: "char \<Rightarrow> char" where
  "lower_char c =
     (case map_of (zip ''ABCDEFGHIJKLMNOPQRSTUVWXYZ'' ''abcdefghijklmnopqrstuvwxyz'') c of
        Some l \<Rightarrow> l | None \<Rightarrow> c)"

fun capitalize :: "string \<Rightarrow> string" where
  "capitalize [] = []"
| "capitalize (c # cs) = upper_char c # map lower_char cs"

definition to_pascal_case :: "string \<Rightarrow> string" where
  "to_pascal_case snake_str = concat (map capitalize (split_on (CHR ''_'') snake_str))"

text \<open>
  The arguments of \<^verbatim>\<open>method_class(name=name, endpoint=endpoint, **kwargs)\<close>. \<open>ann_request\<close>
  and \<open>ann_return\<close> are what \<^verbatim>\<open>get_param_annotation_model\<close> gives for the annotation of
  the first parameter and for the return annotation (\<open>None\<close> also when there is none).
  A registration for which \<^verbatim>\<open>get_param_annotation_model\<close> itself raises (a streaming
  method annotated with a plain class) has no counterpart here.
\<close>

record registration =
  reg_endpoint :: endpoint
  reg_name :: "string option"
  reg_request_model :: "model option"
  reg_response_model :: "model option"
  reg_description :: string
  ann_request :: "model option"
  ann_return :: "model option"

text \<open>\<^verbatim>\<open>name or to_pascal_case(endpoint.__name__)\<close>\<close>

definition resolved_name :: "registration \<Rightarrow> string" where
  "resolved_name reg =
     (case reg_name reg of
        Some n \<Rightarrow> (if n \<noteq> [] then n else to_pascal_case (ep_name (reg_endpoint reg)))
      | None \<Rightarrow> to_pascal_case (ep_name (reg_endpoint reg)))"

definition or_model :: "model option \<Rightarrow> model option \<Rightarrow> model option" where
  "or_model a b = (case a of Some m \<Rightarrow> Some m | None \<Rightarrow> b)"

text \<open>\<^verbatim>\<open>BaseMethod.__init__\<close>, for the class whose \<^verbatim>\<open>mode\<close> attribute is \<open>mode\<close>.\<close>

definition BaseMethod_init :: "MethodMode \<Rightarrow> registration \<Rightarrow> pyexc + Method" where
  "BaseMethod_init mode reg =
     (case ep_params (reg_endpoint reg) of
        [] \<Rightarrow> Inl (ValueError ''not enough values to unpack (expected at least 1, got 0)'')
      | (request, _) # keys \<Rightarrow>
          (let resp = or_model (reg_response_model reg) (ann_return reg) in
           if (case resp of Some rm \<Rightarrow> \<not> is_basemodel rm | None \<Rightarrow> False)
           then Inl (ValueError ''response_model must be a BaseModel subclass'')
           else Inr \<lparr>m_name = resolved_name reg,
                     m_mode = mode,
                     m_endpoint = reg_endpoint reg,
                     m_dependencies = Dependencies_init (reg_endpoint reg),
                     request_model = or_model (reg_request_model reg) (ann_request reg),
                     response_model = resp,
                     description = reg_description reg,
                     request_param = request,
                     context_param = (case keys of [] \<Rightarrow> None | (k, _) # _ \<Rightarrow> Some k)\<rparr>))"

text \<open>\<^verbatim>\<open>BaseMethod.solve_params\<close>\<close>

definition solve_params :: "extern \<Rightarrow> Method \<Rightarrow> pyval \<Rightarrow> pyexc + kwargs" where
  "solve_params ext m request =
     (let values = (case context_param m of Some cp \<Rightarrow> [cp \<mapsto> PContext] | None \<Rightarrow> Map.empty) in
      case request_model m of
        None \<Rightarrow> Inr (values(request_param m \<mapsto> request))
      | Some rm \<Rightarrow>
          (case request of
             PAsyncIter items \<Rightarrow>
               Inr (values(request_param m \<mapsto> PValidatingIter (model_name rm) items))
           | _ \<Rightarrow>
               (case model_validate ext rm (message_to_dict ext request) of
                  Inl e \<Rightarrow> Inl e
                | Inr v \<Rightarrow> Inr (values(request_param m \<mapsto> v)))))"

text \<open>\<^verbatim>\<open>BaseMethod.serialize_response\<close>\<close>

definition serialize_response ::
  "extern \<Rightarrow> Method \<Rightarrow> pyval \<Rightarrow> ControllerContext \<Rightarrow> pyexc + pyval" where
  "serialize_response ext m response context =
     (if isinstance_msg response (output_type context) then Inr response
      else
        (case response_model m of
           Some rm \<Rightarrow>
             (case model_validate ext rm response of
                Inl e \<Rightarrow> Inl e
              | Inr validated_response \<Rightarrow>
                  json_to_message ext (model_dump_json ext validated_response)
                    (output_type context))
         | None \<Rightarrow>
             (if isdict response then dict_to_message ext response (output_type context)
              else Inr response)))"

text \<open>The keyword arguments that travel along the chain.\<close>

record call_kwargs =
  kw_method_descriptor :: "method_descriptor option"
  kw_dependencies_results :: "kwargs option"

definition no_kwargs :: call_kwargs where
  "no_kwargs = \<lparr>kw_method_descriptor = None, kw_dependencies_results = None\<rparr>"

type_synonym callable = "pyval \<Rightarrow> ctx \<Rightarrow> call_kwargs \<Rightarrow> pyval py"

text \<open>What an asynchronous generator gives its consumer: the items, then its end, normal
  or with an exception.\<close>

type_synonym stream = "pyval list \<times> pyexc option"

type_synonym icallable = "pyval \<Rightarrow> ctx \<Rightarrow> call_kwargs \<Rightarrow> pystate \<Rightarrow> stream \<times> pystate"

text \<open>\<^verbatim>\<open>UnaryUnaryMethod.__call__\<close>, inherited by \<^verbatim>\<open>StreamUnaryMethod\<close>.\<close>

definition UnaryUnaryMethod_call :: "extern \<Rightarrow> Method \<Rightarrow> callable" where
  "UnaryUnaryMethod_call ext m request context kw s =
     (case kw_dependencies_results kw of
        None \<Rightarrow> (Inl (TypeError ''missing required argument: dependencies_results''), s)
      | Some dependencies_results \<Rightarrow>
          (case solve_params ext m request of
             Inl e \<Rightarrow> (Inl e, s)
           | Inr values \<Rightarrow>
               (case await_obj (wrapper (m_endpoint m) (values ++ dependencies_results)) s of
                  (Inl e, s1) \<Rightarrow> (Inl e, s1)
                | (Inr result, s1) \<Rightarrow>
                    (case context of
                       Controller c \<Rightarrow> (serialize_response ext m result c, s1)
                     | Servicer _ \<Rightarrow> (Inl (AttributeError ''output_type''), s1)))))"

definition serialize_in :: "extern \<Rightarrow> Method \<Rightarrow> pyval \<Rightarrow> ctx \<Rightarrow> pyexc + pyval" where
  "serialize_in ext m response context =
     (case context of
        Controller c \<Rightarrow> serialize_response ext m response c
      | Servicer _ \<Rightarrow> Inl (AttributeError ''output_type''))"

text \<open>
  The loop \<^verbatim>\<open>async for response in iterator_response: yield self.serialize_response(...)\<close>
  over the asynchronous generator object \<open>i\<close>.
\<close>

function stream_loop :: "extern \<Rightarrow> Method \<Rightarrow> ctx \<Rightarrow> nat \<Rightarrow> pystate \<Rightarrow> stream \<times> pystate" where
  "stream_loop ext m context i s =
     (case anext_py (PAsyncGen i) s of
        (Inl e, s1) \<Rightarrow>
          (if isinstance_exc e ''StopAsyncIteration'' then (([], None), s1)
           else (([], Some e), s1))
      | (Inr response, s1) \<Rightarrow>
          (case serialize_in ext m response context of
             Inl e \<Rightarrow> (([], Some e), s1)
           | Inr v \<Rightarrow>
               (case stream_loop ext m context i s1 of
                  ((vs, ex), s2) \<Rightarrow> ((v # vs, ex), s2))))"
  by pat_completeness auto
termination
  by (relation "measure (\<lambda>(ext, m, context, i, s).
         if i < length (gens s) then length (pending (gens s ! i)) else 0)")
     (auto simp: advance_def emit_def Let_def
           split: if_splits genobj.splits list.splits option.splits)

text \<open>
  \<^verbatim>\<open>UnaryStreamMethod.__call__\<close>, inherited by \<^verbatim>\<open>StreamStreamMethod\<close>. It does not await
  what \<^verbatim>\<open>self.endpoint(**values)\<close> returns, it iterates it; \<^verbatim>\<open>async for\<close> over an object
  that is no asynchronous iterator raises \<^verbatim>\<open>TypeError\<close>.
\<close>

definition async_for_type_error :: string where
  "async_for_type_error =
     CHR 0x27 # ''async for'' @ CHR 0x27
       # '' requires an object with __aiter__ method, got coroutine''"

definition UnaryStreamMethod_call :: "extern \<Rightarrow> Method \<Rightarrow> icallable" where
  "UnaryStreamMethod_call ext m request context kw s =
     (case kw_dependencies_results kw of
        None \<Rightarrow> (([], Some (TypeError ''missing required argument: dependencies_results'')), s)
      | Some dependencies_results \<Rightarrow>
          (case solve_params ext m request of
             Inl e \<Rightarrow> (([], Some e), s)
           | Inr values \<Rightarrow>
               (case wrapper (m_endpoint m) (values ++ dependencies_results) of
                  AsyncGenObj i \<Rightarrow> stream_loop ext m context i s
                | CoroutineObj _ \<Rightarrow> (([], Some (TypeError async_for_type_error)), s))))"

section \<open>Wrappers and middleware\<close>

record AsyncFunctionWrapper =
  w_func :: callable
  w_name :: string
  w_dependencies :: "Dependencies option"

record AsyncGeneratorWrapper =
  g_func :: icallable
  g_name :: string
  g_dependencies :: "Dependencies option"

type_synonym middleware = "AsyncFunctionWrapper \<Rightarrow> callable"

type_synonym iterable_middleware = "AsyncGeneratorWrapper \<Rightarrow> icallable"

text \<open>\<^verbatim>\<open>AsyncFunctionWrapper.__call__\<close>\<close>

definition AsyncFunctionWrapper_call :: "AsyncFunctionWrapper \<Rightarrow> callable" where
  "AsyncFunctionWrapper_call self request context kw s =
     (case w_dependencies self of
        Some deps \<Rightarrow>
          (case get_dependencies_results deps s of
             (Inl e, s1) \<Rightarrow> (Inl e, s1)
           | (Inr res, s1) \<Rightarrow>
               w_func self request context (kw\<lparr>kw_dependencies_results := Some res\<rparr>) s1)
      | None \<Rightarrow> w_func self request context kw s)"

text \<open>An exhaustion signal that leaves the frame of an asynchronous generator becomes a
  \<^verbatim>\<open>RuntimeError\<close>.\<close>

definition asyncgen_boundary :: "pyexc \<Rightarrow> pyexc" where
  "asyncgen_boundary e =
     (if isinstance_exc e ''StopIteration''
      then RuntimeError ''async generator raised StopIteration''
      else if isinstance_exc e ''StopAsyncIteration''
      then RuntimeError ''async generator raised StopAsyncIteration'' else e)"

text \<open>\<^verbatim>\<open>AsyncGeneratorWrapper.__call__\<close>\<close>

definition AsyncGeneratorWrapper_call :: "AsyncGeneratorWrapper \<Rightarrow> icallable" where
  "AsyncGeneratorWrapper_call self request context kw s =
     (case g_dependencies self of
        Some deps \<Rightarrow>
          (case get_dependencies_results deps s of
             (Inl e, s1) \<Rightarrow> (([], Some (asyncgen_boundary e)), s1)
           | (Inr res, s1) \<Rightarrow>
               g_func self request context (kw\<lparr>kw_dependencies_results := Some res\<rparr>) s1)
      | None \<Rightarrow> g_func self request context kw s)"

text \<open>\<^verbatim>\<open>functools.partial(m, wrapped, *args, **kwargs)\<close>: the keyword arguments of the call
  take precedence over the bound ones.\<close>

definition merge_kwargs :: "call_kwargs \<Rightarrow> call_kwargs \<Rightarrow> call_kwargs" where
  "merge_kwargs bound kw =
     \<lparr>kw_method_descriptor =
        (case kw_method_descriptor kw of Some md \<Rightarrow> Some md | None \<Rightarrow> kw_method_descriptor bound),
      kw_dependencies_results =
        (case kw_dependencies_results kw of
           Some r \<Rightarrow> Some r | None \<Rightarrow> kw_dependencies_results bound)\<rparr>"

definition functools_partial :: "middleware \<Rightarrow> AsyncFunctionWrapper \<Rightarrow> call_kwargs \<Rightarrow> callable" where
  "functools_partial m wrapped bound request context kw =
     m wrapped request context (merge_kwargs bound kw)"

definition functools_partial_iterable ::
  "iterable_middleware \<Rightarrow> AsyncGeneratorWrapper \<Rightarrow> call_kwargs \<Rightarrow> icallable" where
  "functools_partial_iterable m wrapped bound request context kw =
     m wrapped request context (merge_kwargs bound kw)"

definition Exception_exc :: "string \<Rightarrow> pyexc" where
  "Exception_exc text = PyExc ''Exception'' [''BaseException''] text NoPayload"

definition bind_context :: "ctx \<Rightarrow> string \<Rightarrow> method_descriptor \<Rightarrow> ctx" where
  "bind_context context method_name md =
     (case context of
        Servicer g \<Rightarrow> Controller (ControllerContext_init g method_name md)
      | Controller c \<Rightarrow> Controller (ControllerContext_init (grpc_context c) method_name md))"

text \<open>\<^verbatim>\<open>NotIterableContextMiddleware.__call__\<close>\<close>

definition NotIterableContextMiddleware :: middleware where
  "NotIterableContextMiddleware method request context kw s =
     (case kw_method_descriptor kw of
        Some method_descriptor \<Rightarrow>
          AsyncFunctionWrapper_call method request
            (bind_context context (w_name method) method_descriptor)
            (kw\<lparr>kw_method_descriptor := None\<rparr>) s
      | None \<Rightarrow> (Inl (Exception_exc ''Not found descriptor in context middleware''), s))"

text \<open>\<^verbatim>\<open>IterableContextMiddleware.__call__\<close>\<close>

definition IterableContextMiddleware :: iterable_middleware where
  "IterableContextMiddleware method request context kw s =
     (case kw_method_descriptor kw of
        Some method_descriptor \<Rightarrow>
          AsyncGeneratorWrapper_call method request
            (bind_context context (g_name method) method_descriptor)
            (kw\<lparr>kw_method_descriptor := None\<rparr>) s
      | None \<Rightarrow> (([], None), s))"

text \<open>\<^verbatim>\<open>context.abort(code=..., details=...)\<close> on whichever context the stage was given.\<close>

definition context_abort :: "ctx \<Rightarrow> StatusCode \<Rightarrow> string \<Rightarrow> pyval py" where
  "context_abort context code details s =
     (case context of
        Servicer g \<Rightarrow> grpc_abort g code details s
      | Controller c \<Rightarrow> abort c code details s)"

text \<open>
  \<^verbatim>\<open>NotIterableExceptionMiddleware.__call__\<close>. The log line of the second clause reads
  \<^verbatim>\<open>context.controller_method\<close>, which only a \<^verbatim>\<open>ControllerContext\<close> has.
\<close>

definition NotIterableExceptionMiddleware :: "(string \<rightharpoonup> handler) \<Rightarrow> middleware" where
  "NotIterableExceptionMiddleware exception_handlers method request context kw s =
     (case AsyncFunctionWrapper_call method request context kw s of
        (Inr response, s1) \<Rightarrow> (Inr response, s1)
      | (Inl exc, s1) \<Rightarrow>
          if isinstance_exc exc ''RpcError'' then
            context_abort context UNKNOWN (exc_text exc) s1
          else if isinstance_exc exc ''Exception'' then
            (case context of
               Servicer _ \<Rightarrow> (Inl (AttributeError ''controller_method''), s1)
             | Controller c \<Rightarrow>
                 (case exception_handlers (exc_kind exc) of
                    Some exception_handler \<Rightarrow>
                      (case exception_handler request c exc s1 of
                         (Inl e, s2) \<Rightarrow> (Inl e, s2)
                       | (Inr _, s2) \<Rightarrow> abort c UNKNOWN (exc_text exc) s2)
                  | None \<Rightarrow> abort c UNKNOWN (exc_text exc) s1))
          else (Inl exc, s1))"

text \<open>\<^verbatim>\<open>IterableExceptionMiddleware.__call__\<close>: the items the inner generator gave before it
  raised have already been passed on.\<close>

definition ends :: "pyval list \<Rightarrow> (pyexc + pyval) \<times> pystate \<Rightarrow> stream \<times> pystate" where
  "ends items r = (case r of (Inl e, s) \<Rightarrow> ((items, Some e), s) | (Inr _, s) \<Rightarrow> ((items, None), s))"

definition IterableExceptionMiddleware :: "(string \<rightharpoonup> handler) \<Rightarrow> iterable_middleware" where
  "IterableExceptionMiddleware exception_handlers method request context kw s =
     (case AsyncGeneratorWrapper_call method request context kw s of
        ((items, None), s1) \<Rightarrow> ((items, None), s1)
      | ((items, Some exc), s1) \<Rightarrow>
          if isinstance_exc exc ''RpcError'' then
            ends items (context_abort context UNKNOWN (exc_text exc) s1)
          else if isinstance_exc exc ''Exception'' then
            (case context of
               Servicer _ \<Rightarrow> ((items, Some (AttributeError ''controller_method'')), s1)
             | Controller c \<Rightarrow>
                 (case exception_handlers (exc_kind exc) of
                    Some exception_handler \<Rightarrow>
                      (case exception_handler request c exc s1 of
                         (Inl e, s2) \<Rightarrow> ((items, Some e), s2)
                       | (Inr _, s2) \<Rightarrow> ends items (abort c UNKNOWN (exc_text exc) s2))
                  | None \<Rightarrow> ends items (abort c UNKNOWN (exc_text exc) s1)))
          else ((items, Some exc), s1))"

definition attach_scheduler :: "ctx \<Rightarrow> ctx" where
  "attach_scheduler context =
     (case context of
        Controller c \<Rightarrow> Controller (c\<lparr>scheduler := True\<rparr>)
      | Servicer g \<Rightarrow> Servicer g)"

text \<open>\<^verbatim>\<open>NotIterableSchedulerMiddleware.__call__\<close> and \<^verbatim>\<open>IterableSchedulerMiddleware.__call__\<close>\<close>

definition NotIterableSchedulerMiddleware :: middleware where
  "NotIterableSchedulerMiddleware method request context kw s =
     AsyncFunctionWrapper_call method request (attach_scheduler context) kw s"

definition IterableSchedulerMiddleware :: iterable_middleware where
  "IterableSchedulerMiddleware method request context kw s =
     AsyncGeneratorWrapper_call method request (attach_scheduler context) kw s"

section \<open>The middleware manager and the controller\<close>

record MiddlewareManager =
  mm_middlewares :: "middleware list"
  mm_iterable_middlewares :: "iterable_middleware list"

text \<open>\<^verbatim>\<open>MiddlewareManager.register\<close> and \<^verbatim>\<open>register_iterable\<close>\<close>

definition register :: "MiddlewareManager \<Rightarrow> middleware list \<Rightarrow> MiddlewareManager" where
  "register mgr ms = mgr\<lparr>mm_middlewares := mm_middlewares mgr @ ms\<rparr>"

definition register_iterable ::
  "MiddlewareManager \<Rightarrow> iterable_middleware list \<Rightarrow> MiddlewareManager" where
  "register_iterable mgr ms = mgr\<lparr>mm_iterable_middlewares := mm_iterable_middlewares mgr @ ms\<rparr>"

text \<open>
  The body of \<^verbatim>\<open>MiddlewareManager.wraps_middleware\<close> for the two wrapper classes: the
  innermost wrapper around the method, then the loop \<^verbatim>\<open>for m in reversed(middlewares)\<close>.
\<close>

definition wrap_function ::
  "middleware list \<Rightarrow> callable \<Rightarrow> string \<Rightarrow> call_kwargs \<Rightarrow> AsyncFunctionWrapper" where
  "wrap_function middlewares method method_name bound =
     foldl (\<lambda>wrapped m.
              \<lparr>w_func = functools_partial m wrapped bound, w_name = w_name wrapped,
               w_dependencies = None\<rparr>)
           \<lparr>w_func = method, w_name = method_name, w_dependencies = None\<rparr>
           (rev middlewares)"

definition wrap_generator ::
  "iterable_middleware list \<Rightarrow> icallable \<Rightarrow> string \<Rightarrow> call_kwargs \<Rightarrow> AsyncGeneratorWrapper" where
  "wrap_generator middlewares method method_name bound =
     foldl (\<lambda>wrapped m.
              \<lparr>g_func = functools_partial_iterable m wrapped bound, g_name = g_name wrapped,
               g_dependencies = None\<rparr>)
           \<lparr>g_func = method, g_name = method_name, g_dependencies = None\<rparr>
           (rev middlewares)"

datatype method_wrapper =
    FunctionMethodWrapper AsyncFunctionWrapper
  | GeneratorMethodWrapper AsyncGeneratorWrapper

text \<open>\<^verbatim>\<open>MiddlewareManager.wraps_middleware\<close>; \<open>bound\<close> are its keyword arguments.\<close>

definition wraps_middleware ::
  "extern \<Rightarrow> MiddlewareManager \<Rightarrow> Method \<Rightarrow> call_kwargs \<Rightarrow> method_wrapper" where
  "wraps_middleware ext mgr method bound =
     (if is_response_iterable method then
        GeneratorMethodWrapper
          ((wrap_generator (mm_iterable_middlewares mgr) (UnaryStreamMethod_call ext method)
              (m_name method) bound)
           \<lparr>g_dependencies := Some (m_dependencies method)\<rparr>)
      else
        FunctionMethodWrapper
          ((wrap_function (mm_middlewares mgr) (UnaryUnaryMethod_call ext method)
              (m_name method) bound)
           \<lparr>w_dependencies := Some (m_dependencies method)\<rparr>))"

text \<open>The entry points handed to the transport:
  \<^verbatim>\<open>async_function_method_wrapper\<close> and \<^verbatim>\<open>async_generator_method_wrapper\<close>.\<close>

definition async_function_method_wrapper ::
  "AsyncFunctionWrapper \<Rightarrow> pyval \<Rightarrow> ServicerContext \<Rightarrow> pyval py" where
  "async_function_method_wrapper wrapped request context s =
     AsyncFunctionWrapper_call wrapped request (Servicer context) no_kwargs s"

definition async_generator_method_wrapper ::
  "AsyncGeneratorWrapper \<Rightarrow> pyval \<Rightarrow> ServicerContext \<Rightarrow> pystate \<Rightarrow> stream \<times> pystate" where
  "async_generator_method_wrapper wrapped request context s =
     AsyncGeneratorWrapper_call wrapped request (Servicer context) no_kwargs s"

text \<open>
  A \<^verbatim>\<open>Controller\<close>. The exception middleware holds the dictionary \<^verbatim>\<open>exception_handlers\<close>
  itself, which \<^verbatim>\<open>add_exception_handler\<close> updates in place, so the manager's lists are read
  off the controller: the built-in stages, then what \<^verbatim>\<open>add_middleware\<close> registered.
\<close>

record Controller =
  ctl_name :: string
  methods :: "string \<rightharpoonup> Method"
  exception_handlers :: "string \<rightharpoonup> handler"
  has_scheduler :: bool
  registered :: "middleware list"
  registered_iterable :: "iterable_middleware list"

text \<open>\<^verbatim>\<open>Controller.__init__\<close>\<close>

definition Controller_init :: "string \<Rightarrow> bool \<Rightarrow> Controller" where
  "Controller_init name_arg scheduler_arg =
     \<lparr>ctl_name = name_arg, methods = Map.empty, exception_handlers = base_exception_handlers,
      has_scheduler = scheduler_arg, registered = [], registered_iterable = []\<rparr>"

definition middleware_manager :: "Controller \<Rightarrow> MiddlewareManager" where
  "middleware_manager ctl =
     \<lparr>mm_middlewares =
        [NotIterableContextMiddleware, NotIterableExceptionMiddleware (exception_handlers ctl)]
        @ (if has_scheduler ctl then [NotIterableSchedulerMiddleware] else [])
        @ registered ctl,
      mm_iterable_middlewares =
        [IterableContextMiddleware, IterableExceptionMiddleware (exception_handlers ctl)]
        @ (if has_scheduler ctl then [IterableSchedulerMiddleware] else [])
        @ registered_iterable ctl\<rparr>"

text \<open>\<^verbatim>\<open>Controller.add_method\<close>, with \<open>mode\<close> for the \<^verbatim>\<open>method_class\<close>.\<close>

definition add_method :: "Controller \<Rightarrow> MethodMode \<Rightarrow> registration \<Rightarrow> pyexc + Method \<times> Controller" where
  "add_method ctl mode reg =
     (case BaseMethod_init mode reg of
        Inl e \<Rightarrow> Inl e
      | Inr method \<Rightarrow> Inr (method, ctl\<lparr>methods := (methods ctl)(m_name method \<mapsto> method)\<rparr>))"

text \<open>A sequence of registrations, stopping at the first that raises.\<close>

fun add_methods :: "Controller \<Rightarrow> (MethodMode \<times> registration) list \<Rightarrow> pyexc + Controller" where
  "add_methods ctl [] = Inr ctl"
| "add_methods ctl ((mode, reg) # rest) =
     (case add_method ctl mode reg of
        Inl e \<Rightarrow> Inl e
      | Inr (_, ctl1) \<Rightarrow> add_methods ctl1 rest)"

text \<open>\<^verbatim>\<open>Controller.add_exception_handler\<close> and \<^verbatim>\<open>Controller.add_middleware\<close>\<close>

definition add_exception_handler :: "Controller \<Rightarrow> (string \<rightharpoonup> handler) \<Rightarrow> Controller" where
  "add_exception_handler ctl exceptions =
     ctl\<lparr>exception_handlers := exception_handlers ctl ++ exceptions\<rparr>"

definition add_middleware ::
  "Controller \<Rightarrow> middleware list \<Rightarrow> iterable_middleware list \<Rightarrow> Controller" where
  "add_middleware ctl simple_middlewares iterable_middlewares =
     ctl\<lparr>registered := registered ctl @ simple_middlewares,
         registered_iterable := registered_iterable ctl @ iterable_middlewares\<rparr>"

text \<open>\<^verbatim>\<open>create_method\<close> of \<^verbatim>\<open>make_grpc_service_from_methods\<close>, for a service descriptor with
  the given full name and methods.\<close>

definition create_method ::
  "extern \<Rightarrow> Controller \<Rightarrow> string \<Rightarrow> (string \<rightharpoonup> method_descriptor) \<Rightarrow> Method
     \<Rightarrow> pyexc + method_wrapper" where
  "create_method ext ctl full_name methods_by_name method =
     (case methods_by_name (m_name method) of
        None \<Rightarrow> Inl (RuntimeError (''Method '' @ m_name method @ '' not found''))
      | Some method_descriptor \<Rightarrow>
          Inr (wraps_middleware ext (middleware_manager ctl)
                 (method\<lparr>m_name := full_name @ ''.'' @ md_name method_descriptor\<rparr>)
                 \<lparr>kw_method_descriptor = Some method_descriptor,
                  kw_dependencies_results = None\<rparr>))"

section \<open>Concrete calls\<close>

text \<open>
  The pieces of the repository's examples (\<^verbatim>\<open>examples/dependency_example.py\<close>,
  \<^verbatim>\<open>examples/exceptions_example.py\<close>) that the theorems below are run on, with stand-ins
  for the functions of pydantic and protobuf and for the transport.
\<close>

definition demo_extern :: extern where
  "demo_extern =
     \<lparr>model_validate = (\<lambda>m v. Inr (case v of PDict kv \<Rightarrow> PModel (model_name m) kv | _ \<Rightarrow> v)),
      model_dump_json = (\<lambda>v. ''{}''),
      json_to_message = (\<lambda>data cls. Inr (PMessage cls [])),
      dict_to_message = (\<lambda>v cls. Inr (PMessage cls (case v of PDict kv \<Rightarrow> kv | _ \<Rightarrow> []))),
      message_to_dict = (\<lambda>v. case v of PMessage _ kv \<Rightarrow> PDict kv | _ \<Rightarrow> v)\<rparr>"

text \<open>\<^verbatim>\<open>grpc.aio\<close>'s \<^verbatim>\<open>abort\<close> raises \<^verbatim>\<open>AbortError\<close>; a test double's returns.\<close>

definition AbortError :: pyexc where
  "AbortError = PyExc ''AbortError'' [''BaseError'', ''Exception'', ''BaseException''] [] NoPayload"

definition aio_context :: ServicerContext where
  "aio_context = \<lparr>abort_raises = Some AbortError\<rparr>"

definition quiet_context :: ServicerContext where
  "quiet_context = \<lparr>abort_raises = None\<rparr>"

definition demo_descriptor :: method_descriptor where
  "demo_descriptor =
     \<lparr>md_name = ''SayHello'', md_input_type = ''HelloRequest'', md_output_type = ''HelloReply''\<rparr>"

definition demo_context :: ControllerContext where
  "demo_context = ControllerContext_init aio_context ''SayHello'' demo_descriptor"

definition demo_request :: pyval where
  "demo_request = PMessage ''HelloRequest'' [(''name'', PStr ''World'')]"

text \<open>\<^verbatim>\<open>def sync_gen(): yield 1\<close>, \<^verbatim>\<open>def sync_dependency(): return "sync dependency"\<close>, and a
  dependency that raises.\<close>

definition sync_gen :: producer where
  "sync_gen = Producer ''sync_gen'' [] (GenDef (\<lambda>kw. ([PInt 1], None)))"

definition sync_dependency :: producer where
  "sync_dependency =
     Producer ''sync_dependency'' [] (PlainDef (\<lambda>kw. Inr (PStr ''sync dependency'')))"

definition failing_dependency :: producer where
  "failing_dependency =
     Producer ''failing_dependency'' [] (PlainDef (\<lambda>kw. Inl (ValueError ''boom'')))"

text \<open>\<^verbatim>\<open>class TestExc(Exception)\<close>, a subclass of it, and the handler of the example.\<close>

definition TestExc :: "string \<Rightarrow> pyexc" where
  "TestExc text = PyExc ''TestExc'' [''Exception'', ''BaseException''] text NoPayload"

definition DerivedExc :: "string \<Rightarrow> pyexc" where
  "DerivedExc text =
     PyExc ''DerivedExc'' [''TestExc'', ''Exception'', ''BaseException''] text NoPayload"

definition exc_handler :: handler where
  "exc_handler request context exc s = abort context INVALID_ARGUMENT ''Some exception'' s"

definition silent_handler :: handler where
  "silent_handler request context exc s = (Inr PNone, s)"

definition hello_reply :: pyval where
  "hello_reply = PDict [(''message'', PStr ''Hello World'')]"

definition say_hello :: endpoint where
  "say_hello =
     \<lparr>ep_name = ''say_hello'', ep_params = [(''request'', NoDefault)],
      ep_body = AsyncDef (\<lambda>kw. Inr hello_reply)\<rparr>"

definition say_hello_gen :: endpoint where
  "say_hello_gen =
     \<lparr>ep_name = ''say_hello'',
      ep_params = [(''request'', NoDefault),
                   (''sync_gen'', DependsDefault \<lparr>dep_id = 0, dependency = sync_gen\<rparr>)],
      ep_body = AsyncDef (\<lambda>kw. Inr hello_reply)\<rparr>"

definition say_hello_raising :: endpoint where
  "say_hello_raising =
     \<lparr>ep_name = ''say_hello'',
      ep_params = [(''request'', NoDefault),
                   (''sync_gen'', DependsDefault \<lparr>dep_id = 0, dependency = sync_gen\<rparr>)],
      ep_body = AsyncDef (\<lambda>kw. Inl (TestExc ''Test exception''))\<rparr>"

definition say_hello_twice :: endpoint where
  "say_hello_twice =
     \<lparr>ep_name = ''say_hello'',
      ep_params = [(''request'', NoDefault),
                   (''sync_ctx'', DependsDefault \<lparr>dep_id = 0, dependency = sync_dependency\<rparr>),
                   (''sync_dependency'',
                    DependsDefault \<lparr>dep_id = 1, dependency = sync_dependency\<rparr>)],
      ep_body = AsyncDef (\<lambda>kw. Inr hello_reply)\<rparr>"

definition say_hello_failing_dependency :: endpoint where
  "say_hello_failing_dependency =
     \<lparr>ep_name = ''say_hello'',
      ep_params = [(''request'', NoDefault),
                   (''dep'', DependsDefault \<lparr>dep_id = 0, dependency = failing_dependency\<rparr>)],
      ep_body = AsyncDef (\<lambda>kw. Inr hello_reply)\<rparr>"

text \<open>\<^verbatim>\<open>async def unary_stream(request): for i in range(3): yield ...\<close>\<close>

definition unary_stream :: endpoint where
  "unary_stream =
     \<lparr>ep_name = ''say_hello'', ep_params = [(''request'', NoDefault)],
      ep_body = AsyncGenDef (\<lambda>kw.
        ([PDict [(''message'', PStr ''SayHello: X 0'')],
          PDict [(''message'', PStr ''SayHello: X 1'')],
          PDict [(''message'', PStr ''SayHello: X 2'')]], None))\<rparr>"

definition registration_of :: "endpoint \<Rightarrow> registration" where
  "registration_of ep =
     \<lparr>reg_endpoint = ep, reg_name = None, reg_request_model = None, reg_response_model = None,
      reg_description = [], ann_request = None, ann_return = None\<rparr>"

text \<open>A controller with one method registered for the endpoint, bound to the descriptor
  of \<^verbatim>\<open>SayHello\<close> the way \<^verbatim>\<open>add_to_server\<close> does it.\<close>

definition bound_method :: "MethodMode \<Rightarrow> endpoint \<Rightarrow> pyexc + method_wrapper" where
  "bound_method mode ep =
     (case add_method (Controller_init ''Greeter'' False) mode (registration_of ep) of
        Inl e \<Rightarrow> Inl e
      | Inr (method, ctl) \<Rightarrow>
          create_method demo_extern ctl ''Greeter'' [''SayHello'' \<mapsto> demo_descriptor] method)"

text \<open>One call of the bound method, whichever flavour it has; a single result is shown as
  a stream of one item.\<close>

definition call_bound ::
  "pyexc + method_wrapper \<Rightarrow> pyval \<Rightarrow> ServicerContext \<Rightarrow> pystate \<Rightarrow> stream \<times> pystate" where
  "call_bound b request context s =
     (case b of
        Inl e \<Rightarrow> (([], Some e), s)
      | Inr (FunctionMethodWrapper w) \<Rightarrow>
          (case async_function_method_wrapper w request context s of
             (Inl e, s1) \<Rightarrow> (([], Some e), s1)
           | (Inr v, s1) \<Rightarrow> (([v], None), s1))
      | Inr (GeneratorMethodWrapper w) \<Rightarrow> async_generator_method_wrapper w request context s)"

text \<open>The same without a method descriptor among the keyword arguments of
  \<^verbatim>\<open>wraps_middleware\<close>, which its signature allows.\<close>

definition unbound_method :: "MethodMode \<Rightarrow> endpoint \<Rightarrow> pyexc + method_wrapper" where
  "unbound_method mode ep =
     (case add_method (Controller_init ''Greeter'' False) mode (registration_of ep) of
        Inl e \<Rightarrow> Inl e
      | Inr (method, ctl) \<Rightarrow>
          Inr (wraps_middleware demo_extern (middleware_manager ctl) method no_kwargs))"

definition demo_method :: "model option \<Rightarrow> Method" where
  "demo_method rm =
     \<lparr>m_name = ''SayHello'', m_mode = UNARY_UNARY, m_endpoint = say_hello,
      m_dependencies = Dependencies_init say_hello, request_model = None, response_model = rm,
      description = [], request_param = ''request'', context_param = None\<rparr>"

text \<open>Inner stages that raise the given exception, for the two flavours of the chain.\<close>

definition raising_wrapper :: "pyexc \<Rightarrow> AsyncFunctionWrapper" where
  "raising_wrapper exc =
     \<lparr>w_func = (\<lambda>request context kw s. (Inl exc, s)), w_name = ''SayHello'',
      w_dependencies = None\<rparr>"

definition raising_generator_wrapper :: "pyexc \<Rightarrow> AsyncGeneratorWrapper" where
  "raising_generator_wrapper exc =
     \<lparr>g_func = (\<lambda>request context kw s. (([], Some exc), s)), g_name = ''SayHello'',
      g_dependencies = None\<rparr>"

definition demo_handlers :: "string \<rightharpoonup> handler" where
  "demo_handlers = base_exception_handlers ++ [''TestExc'' \<mapsto> exc_handler]"

text \<open>A dependency that raises \<^verbatim>\<open>TestExc\<close>, an endpoint that depends on it, and a controller
  on which the handler of the example is registered for \<^verbatim>\<open>TestExc\<close>.\<close>

definition raising_dependency :: producer where
  "raising_dependency =
     Producer ''raising_dependency'' [] (PlainDef (\<lambda>kw. Inl (TestExc ''Test exception'')))"

definition say_hello_raising_dependency :: endpoint where
  "say_hello_raising_dependency =
     \<lparr>ep_name = ''say_hello'',
      ep_params = [(''request'', NoDefault),
                   (''dep'', DependsDefault \<lparr>dep_id = 0, dependency = raising_dependency\<rparr>)],
      ep_body = AsyncDef (\<lambda>kw. Inr hello_reply)\<rparr>"

definition bound_method_handling ::
  "(string \<rightharpoonup> handler) \<Rightarrow> MethodMode \<Rightarrow> endpoint \<Rightarrow> pyexc + method_wrapper" where
  "bound_method_handling exceptions mode ep =
     (case add_method (add_exception_handler (Controller_init ''Greeter'' False) exceptions)
             mode (registration_of ep) of
        Inl e \<Rightarrow> Inl e
      | Inr (method, ctl) \<Rightarrow>
          create_method demo_extern ctl ''Greeter'' [''SayHello'' \<mapsto> demo_descriptor] method)"

definition silent_handlers :: "string \<rightharpoonup> handler" where
  "silent_handlers = base_exception_handlers ++ [''TestExc'' \<mapsto> silent_handler]"

definition quiet_demo_context :: ControllerContext where
  "quiet_demo_context = ControllerContext_init quiet_context ''SayHello'' demo_descriptor"

text \<open>Two registrations with the same resolved name: \<^verbatim>\<open>say_hello\<close> registered without a
  name, then another endpoint registered under the name \<^verbatim>\<open>SayHello\<close>.\<close>

definition demo_registrations :: "(MethodMode \<times> registration) list" where
  "demo_registrations =
     [(UNARY_UNARY, registration_of say_hello),
      (UNARY_UNARY, (registration_of say_hello_gen)\<lparr>reg_name := Some ''SayHello''\<rparr>)]"

text \<open>A registered method for the endpoint, as \<^verbatim>\<open>create_method\<close> leaves it.\<close>

definition method_of :: "MethodMode \<Rightarrow> endpoint \<Rightarrow> Method" where
  "method_of mode ep =
     \<lparr>m_name = ''Greeter.SayHello'', m_mode = mode, m_endpoint = ep,
      m_dependencies = Dependencies_init ep, request_model = None, response_model = None,
      description = [], request_param = ''request'', context_param = None\<rparr>"

definition bound_kwargs :: call_kwargs where
  "bound_kwargs =
     \<lparr>kw_method_descriptor = Some demo_descriptor, kw_dependencies_results = None\<rparr>"

section \<open>Counting invocations\<close>

text \<open>How often the function named \<open>n\<close> has been called so far.\<close>

definition calls :: "string \<Rightarrow> pystate \<Rightarrow> nat" where
  "calls n s = count_list (trace s) (Called n)"

text \<open>The functions a dependency refers to through its parameters, at any depth.\<close>

fun names_of :: "producer \<Rightarrow> string list"
and names_of_params :: "(string \<times> pdefault) list \<Rightarrow> string list" where
  "names_of (Producer n ps b) = n # names_of_params ps"
| "names_of_params [] = []"
| "names_of_params ((x, Default v) # ps) = names_of_params ps"
| "names_of_params ((x, DependsOn p) # ps) = names_of p @ names_of_params ps"

text \<open>
  No function is among its own dependencies. Python guarantees it: the marker
  \<^verbatim>\<open>Depends(f)\<close> in a default of \<open>g\<close> is evaluated when \<open>g\<close> is defined, after \<open>f\<close>.
\<close>

fun acyclic_producer :: "producer \<Rightarrow> bool"
and acyclic_params :: "(string \<times> pdefault) list \<Rightarrow> bool" where
  "acyclic_producer (Producer n ps b) = (n \<notin> set (names_of_params ps) \<and> acyclic_params ps)"
| "acyclic_params [] = True"
| "acyclic_params ((x, Default v) # ps) = acyclic_params ps"
| "acyclic_params ((x, DependsOn p) # ps) = (acyclic_producer p \<and> acyclic_params ps)"

text \<open>The dependencies themselves, at any depth.\<close>

fun nodes_of :: "producer \<Rightarrow> producer list"
and nodes_of_params :: "(string \<times> pdefault) list \<Rightarrow> producer list" where
  "nodes_of (Producer n ps b) = Producer n ps b # nodes_of_params ps"
| "nodes_of_params [] = []"
| "nodes_of_params ((x, Default v) # ps) = nodes_of_params ps"
| "nodes_of_params ((x, DependsOn p) # ps) = nodes_of p @ nodes_of_params ps"

text \<open>
  A name stands for one function, and a function has one signature: two dependencies of
  the same name refer to the same functions.
\<close>

definition consistent_names :: "producer set \<Rightarrow> bool" where
  "consistent_names T =
     (\<forall>q1 \<in> T. \<forall>q2 \<in> T. pname q1 = pname q2 \<longrightarrow> set (names_of q1) = set (names_of q2))"

definition well_formed :: "producer \<Rightarrow> bool" where
  "well_formed p = (acyclic_producer p \<and> consistent_names (set (nodes_of p)))"

text \<open>A cache that holds a function holds everything the function depends on.\<close>

definition closed_cache :: "producer set \<Rightarrow> kwargs \<Rightarrow> bool" where
  "closed_cache T cache =
     (\<forall>q \<in> T. pname q \<in> dom cache \<longrightarrow> set (names_of q) \<subseteq> dom cache)"

text \<open>What one run of the resolver over the functions \<open>N\<close> does to the cache and to the
  number of calls; \<open>ok\<close> says that the run returned.\<close>

definition resolved ::
  "string set \<Rightarrow> kwargs \<Rightarrow> pystate \<Rightarrow> bool \<Rightarrow> kwargs \<Rightarrow> pystate \<Rightarrow> bool" where
  "resolved N cache s ok cache' s' =
     (cache \<subseteq>\<^sub>m cache' \<and> dom cache' \<subseteq> dom cache \<union> N
      \<and> (\<forall>n. calls n s' \<le> calls n s + 1)
      \<and> (\<forall>n. calls n s < calls n s' \<longrightarrow>
             n \<in> N \<and> cache n = None \<and> (ok \<longrightarrow> cache' n \<noteq> None)))"

text \<open>\<^verbatim>\<open>async def layer_dependencies(inner=Depends(sync_dependency),
  other=Depends(sync_dependency)): return inner\<close>\<close>

definition layer_dependencies :: producer where
  "layer_dependencies =
     Producer ''layer_dependencies''
       [(''inner'', DependsOn sync_dependency), (''other'', DependsOn sync_dependency)]
       (AsyncDef (\<lambda>kw. Inr (case kw ''inner'' of Some v \<Rightarrow> v | None \<Rightarrow> PNone)))"

text \<open>An endpoint with one dependency parameter, whose dependency refers to
  \<^verbatim>\<open>sync_dependency\<close> twice.\<close>

definition say_hello_layers :: endpoint where
  "say_hello_layers =
     \<lparr>ep_name = ''say_hello'',
      ep_params = [(''request'', NoDefault),
                   (''layer_dependencies'',
                    DependsDefault \<lparr>dep_id = 0, dependency = layer_dependencies\<rparr>)],
      ep_body = AsyncDef (\<lambda>kw. Inr hello_reply)\<rparr>"

section \<open>Auxiliary facts\<close>

lemma aborts_emit_Aborted: "aborts (emit (Aborted c d) s) = aborts s @ [(c, d)]"
  by (simp add: aborts_def emit_def)

lemma aborts_abort: "aborts (snd (abort c code details s)) = aborts s @ [(code, details)]"
  by (simp add: abort_def grpc_abort_def aborts_emit_Aborted split: option.splits)

lemma aborts_init: "aborts init_state = []"
  by (simp add: aborts_def init_state_def)

lemma aborts_ends: "aborts (snd (ends items r)) = aborts (snd r)"
  by (simp add: ends_def split: prod.splits sum.splits)

lemma wrap_function_Nil:
  "wrap_function [] method method_name bound =
     \<lparr>w_func = method, w_name = method_name, w_dependencies = None\<rparr>"
  by (simp add: wrap_function_def)

lemma wrap_function_Cons:
  "wrap_function (m # ms) method method_name bound =
     \<lparr>w_func = functools_partial m (wrap_function ms method method_name bound) bound,
      w_name = w_name (wrap_function ms method method_name bound), w_dependencies = None\<rparr>"
  by (simp add: wrap_function_def)

lemma wrap_function_dependencies:
  "w_dependencies (wrap_function ms method method_name bound) = None"
  by (cases ms) (simp_all add: wrap_function_Nil wrap_function_Cons)

lemma wrap_function_name: "w_name (wrap_function ms method method_name bound) = method_name"
  by (induction ms) (simp_all add: wrap_function_Nil wrap_function_Cons)

lemma wrap_generator_Nil:
  "wrap_generator [] method method_name bound =
     \<lparr>g_func = method, g_name = method_name, g_dependencies = None\<rparr>"
  by (simp add: wrap_generator_def)

lemma wrap_generator_Cons:
  "wrap_generator (m # ms) method method_name bound =
     \<lparr>g_func = functools_partial_iterable m (wrap_generator ms method method_name bound) bound,
      g_name = g_name (wrap_generator ms method method_name bound), g_dependencies = None\<rparr>"
  by (simp add: wrap_generator_def)

lemma wrap_generator_dependencies:
  "g_dependencies (wrap_generator ms method method_name bound) = None"
  by (cases ms) (simp_all add: wrap_generator_Nil wrap_generator_Cons)

lemma function_dispatch:
  "async_function_method_wrapper
     ((wrap_function ms method method_name bound)\<lparr>w_dependencies := Some deps\<rparr>) request g s =
   (case get_dependencies_results deps s of
      (Inl e, s1) \<Rightarrow> (Inl e, s1)
    | (Inr res, s1) \<Rightarrow>
        AsyncFunctionWrapper_call (wrap_function ms method method_name bound) request
          (Servicer g) (no_kwargs\<lparr>kw_dependencies_results := Some res\<rparr>) s1)"
  by (simp add: async_function_method_wrapper_def AsyncFunctionWrapper_call_def
        wrap_function_dependencies split: prod.splits sum.splits)

lemma generator_dispatch:
  "async_generator_method_wrapper
     ((wrap_generator ms method method_name bound)\<lparr>g_dependencies := Some deps\<rparr>) request g s =
   (case get_dependencies_results deps s of
      (Inl e, s1) \<Rightarrow> (([], Some (asyncgen_boundary e)), s1)
    | (Inr res, s1) \<Rightarrow>
        AsyncGeneratorWrapper_call (wrap_generator ms method method_name bound) request
          (Servicer g) (no_kwargs\<lparr>kw_dependencies_results := Some res\<rparr>) s1)"
  by (simp add: async_generator_method_wrapper_def AsyncGeneratorWrapper_call_def
        wrap_generator_dependencies split: prod.splits sum.splits)

lemma raising_wrapper_call:
  "AsyncFunctionWrapper_call (raising_wrapper exc) request context kw s = (Inl exc, s)"
  by (simp add: AsyncFunctionWrapper_call_def raising_wrapper_def)

lemma raising_generator_wrapper_call:
  "AsyncGeneratorWrapper_call (raising_generator_wrapper exc) request context kw s =
     (([], Some exc), s)"
  by (simp add: AsyncGeneratorWrapper_call_def raising_generator_wrapper_def)

lemma BaseMethod_init_name: "BaseMethod_init mode reg = Inr m \<Longrightarrow> m_name m = resolved_name reg"
  by (auto simp: BaseMethod_init_def Let_def split: list.splits if_splits prod.splits)

lemma find_snoc:
  "find P (xs @ [x]) = (case find P xs of Some y \<Rightarrow> Some y | None \<Rightarrow> if P x then Some x else None)"
  by (induction xs) auto

text \<open>
  The definitions a concrete call unfolds to.
\<close>

lemmas demo_defs =
  call_bound_def bound_method_def unbound_method_def add_method_def BaseMethod_init_def
  registration_of_def
  Controller_init_def create_method_def wraps_middleware_def middleware_manager_def
  wrap_function_def wrap_generator_def functools_partial_def functools_partial_iterable_def
  merge_kwargs_def no_kwargs_def async_function_method_wrapper_def
  async_generator_method_wrapper_def AsyncFunctionWrapper_call_def AsyncGeneratorWrapper_call_def
  NotIterableContextMiddleware_def NotIterableExceptionMiddleware_def
  IterableContextMiddleware_def IterableExceptionMiddleware_def
  UnaryUnaryMethod_call_def UnaryStreamMethod_call_def wrapper_def
  get_dependencies_results_def Dependencies_init_def Depends_call_def call_and_unwrap_def
  call_fn_def new_gen_def advance_def emit_def extend_cached_def coroutine_boundary_def
  asyncgen_boundary_def isinstance_exc_def solve_params_def serialize_response_def
  resolved_name_def or_model_def to_pascal_case_def upper_char_def lower_char_def
  is_response_iterable_def bind_context_def ControllerContext_init_def context_abort_def
  abort_def grpc_abort_def ends_def init_state_def base_exception_handlers_def
  demo_extern_def aio_context_def quiet_context_def demo_descriptor_def demo_request_def
  StopIteration_def StopAsyncIteration_def builtin_exc_def TypeError_def ValueError_def
  AbortError_def TestExc_def hello_reply_def Exception_exc_def

lemma UnaryStreamMethod_call_no_items:
  "fst (fst (UnaryStreamMethod_call ext m request context kw s)) = []"
  by (simp add: UnaryStreamMethod_call_def wrapper_def split: option.splits sum.splits)

section \<open>What the resolver does to the cache and to the number of calls\<close>

lemma calls_emit: "calls n (emit ev s) = calls n s + (if ev = Called n then 1 else 0)"
  by (simp add: calls_def emit_def)

lemma calls_depends_cached [simp]: "calls n (s\<lparr>depends_cached := x\<rparr>) = calls n s"
  by (simp add: calls_def)

lemma calls_gens [simp]: "calls n (s\<lparr>gens := x\<rparr>) = calls n s"
  by (simp add: calls_def)

lemma calls_advance: "calls n (snd (advance i stop s)) = calls n s"
  by (simp add: advance_def Let_def calls_emit split: genobj.splits list.splits option.splits)

lemma calls_next_py: "calls n (snd (next_py v s)) = calls n s"
  by (cases v) (simp_all add: calls_advance)

lemma calls_anext_py: "calls n (snd (anext_py v s)) = calls n s"
  by (cases v) (simp_all add: calls_advance)

lemma calls_await_py: "calls n (snd (await_py v s)) = calls n s"
  by (cases v) simp_all

lemma calls_call_fn:
  "calls n (snd (call_fn name body kw s)) = calls n s + (if n = name then 1 else 0)"
  by (cases body) (auto simp: call_fn_def new_gen_def Let_def calls_emit split: prod.splits)

lemma calls_next_pyD: "next_py v s = (r, s') \<Longrightarrow> calls n s' = calls n s"
  using calls_next_py [of n v s] by simp

lemma calls_anext_pyD: "anext_py v s = (r, s') \<Longrightarrow> calls n s' = calls n s"
  using calls_anext_py [of n v s] by simp

lemma calls_await_pyD: "await_py v s = (r, s') \<Longrightarrow> calls n s' = calls n s"
  using calls_await_py [of n v s] by simp

lemma calls_call_fnD:
  "call_fn name body kw s = (r, s') \<Longrightarrow> calls n s' = calls n s + (if n = name then 1 else 0)"
  using calls_call_fn [of n name body kw s] by simp

lemma calls_call_and_unwrap:
  "call_and_unwrap self name body kw s = (r, s') \<Longrightarrow>
     calls n s' = calls n s + (if n = name then 1 else 0)"
  unfolding call_and_unwrap_def
  by (auto split: prod.splits sum.splits if_splits
           dest!: calls_call_fnD [where n = n] calls_next_pyD [where n = n]
                  calls_anext_pyD [where n = n] calls_await_pyD [where n = n])

lemma resolved_refl: "resolved N cache s ok cache s"
  by (simp add: resolved_def)

lemma resolved_weaken:
  "resolved N cache s ok c' s' \<Longrightarrow> N \<subseteq> N' \<Longrightarrow> resolved N' cache s False c' s'"
  by (auto simp: resolved_def)

lemma resolved_seq:
  assumes a: "resolved N1 cache s True c1 s1" and b: "resolved N2 c1 s1 ok c' s'"
  shows "resolved (N1 \<union> N2) cache s ok c' s'"
proof -
  have le: "cache \<subseteq>\<^sub>m c'" using a b by (auto simp: resolved_def intro: map_le_trans)
  have le1: "cache \<subseteq>\<^sub>m c1" and le2: "c1 \<subseteq>\<^sub>m c'" using a b by (auto simp: resolved_def)
  have dom: "dom c' \<subseteq> dom cache \<union> (N1 \<union> N2)" using a b unfolding resolved_def by blast
  have first: "calls n s < calls n s1 \<Longrightarrow> c1 n \<noteq> None \<and> n \<in> N1 \<and> cache n = None" for n
    using a by (auto simp: resolved_def)
  have second: "calls n s1 < calls n s' \<Longrightarrow> c1 n = None \<and> n \<in> N2 \<and> (ok \<longrightarrow> c' n \<noteq> None)" for n
    using b by (auto simp: resolved_def)
  have b1: "calls n s1 \<le> calls n s + 1" for n using a by (auto simp: resolved_def)
  have b2: "calls n s' \<le> calls n s1 + 1" for n using b by (auto simp: resolved_def)
  have B: "calls n s' \<le> calls n s + 1" for n
  proof (cases "calls n s < calls n s1")
    case True
    then have "c1 n \<noteq> None" using first [of n] by simp
    then have "\<not> calls n s1 < calls n s'" using second [of n] by auto
    then show ?thesis using b1 [of n] by simp
  next
    case False
    then show ?thesis using b2 [of n] by simp
  qed
  have C: "n \<in> N1 \<union> N2 \<and> cache n = None \<and> (ok \<longrightarrow> c' n \<noteq> None)"
    if lt: "calls n s < calls n s'" for n
  proof (cases "calls n s < calls n s1")
    case True
    then have f: "c1 n \<noteq> None" "n \<in> N1" "cache n = None" using first [of n] by simp_all
    from f(1) le2 have "c' n \<noteq> None" by (auto simp: map_le_def dom_def)
    then show ?thesis using f by simp
  next
    case False
    then have "calls n s1 < calls n s'" using lt by simp
    then have g: "c1 n = None" "n \<in> N2" "ok \<longrightarrow> c' n \<noteq> None" using second [of n] by simp_all
    from g(1) le1 have "cache n = None" by (cases "cache n") (auto simp: map_le_def dom_def)
    then show ?thesis using g by simp
  qed
  show ?thesis unfolding resolved_def using le dom B C by blast
qed

lemma resolved_call:
  assumes a: "resolved N cache s True c1 s1" and n: "name \<notin> N" and c: "cache name = None"
    and s2: "\<And>n. calls n s2 = calls n s1 + (if n = name then 1 else 0)"
  shows "resolved (insert name N) cache s False c1 s2"
    and "c1 name = None"
    and "resolved (insert name N) cache s True (c1(name \<mapsto> v)) s2"
proof -
  have le1: "cache \<subseteq>\<^sub>m c1" and dom1: "dom c1 \<subseteq> dom cache \<union> N"
    and b1: "\<And>n. calls n s1 \<le> calls n s + 1"
    and c1: "\<And>n. calls n s < calls n s1 \<Longrightarrow> n \<in> N \<and> cache n = None \<and> c1 n \<noteq> None"
    using a by (auto simp: resolved_def)
  show none: "c1 name = None" using dom1 n c by (auto simp: dom_def)
  have nm: "calls name s1 \<le> calls name s" by (rule leI) (use c1 [of name] n in blast)
  have B: "calls k s2 \<le> calls k s + 1" for k
    using s2 [of k] b1 [of k] nm by (cases "k = name") simp_all
  have C: "k \<in> insert name N \<and> cache k = None \<and> (c1(name \<mapsto> v)) k \<noteq> None"
    if "calls k s < calls k s2" for k
    using that s2 [of k] c1 [of k] c by (cases "k = name") simp_all
  show "resolved (insert name N) cache s False c1 s2"
    unfolding resolved_def using le1 dom1 B C by auto
  have le2: "cache \<subseteq>\<^sub>m c1(name \<mapsto> v)"
    using le1 none by (auto simp: map_le_def dom_def)
  show "resolved (insert name N) cache s True (c1(name \<mapsto> v)) s2"
    unfolding resolved_def using le2 dom1 B C by auto
qed

lemma resolve_resolved:
  "acyclic_producer p \<Longrightarrow> cache (pname p) = None \<Longrightarrow>
     resolve_dependencies self p cache s = (r, c', s') \<Longrightarrow>
     resolved (set (names_of p)) cache s False c' s' \<and> c' (pname p) = None
     \<and> (\<forall>v. r = Inr v \<longrightarrow> resolved (set (names_of p)) cache s True (c'(pname p \<mapsto> v)) s')"
  and resolve_params_resolved:
    "acyclic_params ps \<Longrightarrow> resolve_params self ps kw cache s = (r2, c', s') \<Longrightarrow>
     resolved (set (names_of_params ps)) cache s (\<not> isl r2) c' s'"
proof (induction self p cache s and self ps kw cache s
       arbitrary: r c' s' and r2 c' s'
       rule: resolve_dependencies_resolve_params.induct)
  case (1 self name params body cache s)
  obtain r1 c1 s1 where rp: "resolve_params self params Map.empty cache s = (r1, c1, s1)"
    by (cases "resolve_params self params Map.empty cache s") auto
  from "1.prems" have ac: "acyclic_params params" and nn: "name \<notin> set (names_of_params params)"
    and cn: "cache name = None" by simp_all
  from "1.IH" [OF ac rp] have q: "resolved (set (names_of_params params)) cache s (\<not> isl r1) c1 s1" .
  show ?case
  proof (cases r1)
    case (Inl e)
    with rp "1.prems"(3) have eq: "r = Inl e" "c' = c1" "s' = s1" by simp_all
    have "dom c1 \<subseteq> dom cache \<union> set (names_of_params params)" using q by (simp add: resolved_def)
    then have "c1 name = None" using nn cn by (auto simp: dom_def)
    moreover have "resolved (set (names_of (Producer name params body))) cache s False c1 s1"
      using resolved_weaken [OF q] by auto
    ultimately show ?thesis using eq by simp
  next
    case (Inr kwv)
    obtain rb s2 where cu: "call_and_unwrap self name body kwv s1 = (rb, s2)"
      by (cases "call_and_unwrap self name body kwv s1") auto
    with rp Inr "1.prems"(3) have eq: "r = rb" "c' = c1" "s' = s2" by simp_all
    from q Inr have q': "resolved (set (names_of_params params)) cache s True c1 s1" by simp
    have s2: "\<And>n. calls n s2 = calls n s1 + (if n = name then 1 else 0)"
      using calls_call_and_unwrap [OF cu] by simp
    show ?thesis
      unfolding eq names_of.simps producer.sel list.set
      using resolved_call [OF q' nn cn s2] by blast
  qed
next
  case (2 self kw cache s)
  then show ?case by (simp add: resolved_refl)
next
  case (3 self name v ps kw cache s)
  from "3.prems" have ap: "acyclic_params ps"
    and rp: "resolve_params self ps (kw(name \<mapsto> v)) cache s = (r2, c', s')" by simp_all
  from "3.IH" [OF ap rp] show ?case by simp
next
  case (4 self name dep_func ps kw cache s)
  from "4.prems" have ad: "acyclic_producer dep_func" and ap: "acyclic_params ps" by simp_all
  show ?case
  proof (cases "cache (pname dep_func)")
    case (Some dep_value)
    with "4.prems" have "resolve_params self ps (kw(name \<mapsto> dep_value)) cache s = (r2, c', s')"
      by simp
    from "4.IH"(3) [OF Some ap this]
    have "resolved (set (names_of_params ps)) cache s (\<not> isl r2) c' s'" .
    then show ?thesis by (auto simp: resolved_def)
  next
    case None
    obtain r1 c1 s1 where rd: "resolve_dependencies self dep_func cache s = (r1, c1, s1)"
      by (cases "resolve_dependencies self dep_func cache s") auto
    from "4.IH"(1) [OF None ad None rd]
    have p1: "resolved (set (names_of dep_func)) cache s False c1 s1"
      and p2: "\<And>v. r1 = Inr v \<Longrightarrow>
                 resolved (set (names_of dep_func)) cache s True (c1(pname dep_func \<mapsto> v)) s1"
      by blast+
    show ?thesis
    proof (cases r1)
      case (Inl e)
      with rd None "4.prems" have eq: "r2 = Inl e" "c' = c1" "s' = s1" by simp_all
      show ?thesis using resolved_weaken [OF p1] eq by auto
    next
      case (Inr dep_value)
      with rd None "4.prems"
      have rest: "resolve_params self ps (kw(name \<mapsto> dep_value))
                    (c1(pname dep_func \<mapsto> dep_value)) s1 = (r2, c', s')" by simp
      from "4.IH"(2) [OF None rd [symmetric] Inr refl ap rest]
      have q: "resolved (set (names_of_params ps)) (c1(pname dep_func \<mapsto> dep_value)) s1
                 (\<not> isl r2) c' s'" .
      from resolved_seq [OF p2 [OF Inr] q] show ?thesis by simp
    qed
  qed
qed

lemma resolve_params_shares:
  "acyclic_params ps \<Longrightarrow> distinct (map fst ps) \<Longrightarrow>
   resolve_params self ps kw cache s = (Inr kw', c', s') \<Longrightarrow>
   (\<forall>a q. (a, DependsOn q) \<in> set ps \<longrightarrow> kw' a = c' (pname q) \<and> c' (pname q) \<noteq> None)
   \<and> (\<forall>x. x \<notin> fst ` set ps \<longrightarrow> kw' x = kw x)"
proof (induction ps arbitrary: kw cache s)
  case Nil
  then show ?case by simp
next
  case (Cons x ps)
  obtain name d where x: "x = (name, d)" by (cases x)
  from Cons.prems x have ap: "acyclic_params ps" and di: "distinct (map fst ps)"
    and nn: "name \<notin> fst ` set ps"
    by (cases d; simp)+
  show ?case
  proof (cases d)
    case (Default v)
    with Cons.prems x
    have rest: "resolve_params self ps (kw(name \<mapsto> v)) cache s = (Inr kw', c', s')" by simp
    from Cons.IH [OF ap di rest] nn show ?thesis using x Default by auto
  next
    case (DependsOn q)
    have step: "\<exists>v cache2 s1. resolve_params self ps (kw(name \<mapsto> v)) cache2 s1 = (Inr kw', c', s')
                  \<and> cache2 (pname q) = Some v"
    proof (cases "cache (pname q)")
      case (Some v)
      with Cons.prems x DependsOn show ?thesis by auto
    next
      case None
      obtain r1 c1 s1 where rd: "resolve_dependencies self q cache s = (r1, c1, s1)"
        by (cases "resolve_dependencies self q cache s") auto
      show ?thesis
      proof (cases r1)
        case (Inl e)
        with Cons.prems x DependsOn None rd show ?thesis by simp
      next
        case (Inr b)
        with Cons.prems x DependsOn None rd
        have "resolve_params self ps (kw(name \<mapsto> b)) (c1(pname q \<mapsto> b)) s1 = (Inr kw', c', s')"
          by simp
        then show ?thesis
          by (intro exI [of _ b] exI [of _ "c1(pname q \<mapsto> b)"] exI [of _ s1]) simp
      qed
    qed
    then obtain v cache2 s1 where
      rest: "resolve_params self ps (kw(name \<mapsto> v)) cache2 s1 = (Inr kw', c', s')"
      and cv: "cache2 (pname q) = Some v" by blast
    from resolve_params_resolved [OF ap rest] have "cache2 \<subseteq>\<^sub>m c'" by (simp add: resolved_def)
    with cv have cq: "c' (pname q) = Some v" by (auto simp: map_le_def dom_def)
    from Cons.IH [OF ap di rest]
    have ih1: "\<And>a q. (a, DependsOn q) \<in> set ps \<Longrightarrow> kw' a = c' (pname q) \<and> c' (pname q) \<noteq> None"
      and ih2: "\<And>x. x \<notin> fst ` set ps \<Longrightarrow> kw' x = (kw(name \<mapsto> v)) x" by blast+
    from ih2 [OF nn] have kn: "kw' name = Some v" by simp
    show ?thesis using x DependsOn ih1 ih2 kn cq by auto
  qed
qed

lemma calls_Depends_call:
  assumes "acyclic_producer (dependency d)" and "Depends_call d s = (r, s')"
  shows "calls n s' \<le> calls n s + (if n \<in> set (names_of (dependency d)) then 1 else 0)"
proof -
  obtain r1 c1 s1 where rd:
    "resolve_dependencies (dep_id d) (dependency d) Map.empty s = (r1, c1, s1)"
    by (cases "resolve_dependencies (dep_id d) (dependency d) Map.empty s") auto
  with assms(2) have s': "s' = s1" by (cases r1) (simp_all add: Depends_call_def)
  from resolve_resolved [OF assms(1) _ rd]
  have "resolved (set (names_of (dependency d))) Map.empty s False c1 s1" by simp
  then have b: "calls n s1 \<le> calls n s + 1"
    and c: "n \<notin> set (names_of (dependency d)) \<Longrightarrow> calls n s1 \<le> calls n s"
    unfolding resolved_def by (simp, meson leI)
  show ?thesis using b c s' by auto
qed

lemma calls_extend_cached [simp]: "calls n (extend_cached gs s) = calls n s"
  by (simp add: extend_cached_def calls_def)

lemma calls_dependencies_loop:
  "\<forall>kd \<in> set deps. acyclic_producer (dependency (snd kd)) \<Longrightarrow>
   dependencies_loop deps res s = (r, s') \<Longrightarrow>
   calls n s' \<le> calls n s
     + length (filter (\<lambda>kd. n \<in> set (names_of (dependency (snd kd)))) deps)"
proof (induction deps arbitrary: res s)
  case Nil
  then show ?case by simp
next
  case (Cons kd deps)
  obtain param d where kd: "kd = (param, d)" by (cases kd)
  from Cons.prems kd have ad: "acyclic_producer (dependency d)"
    and rest: "\<forall>kd \<in> set deps. acyclic_producer (dependency (snd kd))" by simp_all
  obtain r1 s1 where dc: "Depends_call d s = (r1, s1)" by (cases "Depends_call d s")
  note one = calls_Depends_call [OF ad dc, of n]
  show ?case
  proof (cases r1)
    case (Inl e)
    with Cons.prems(2) kd dc have "s' = s1" by simp
    with one kd show ?thesis by auto
  next
    case (Inr hg)
    obtain h gs where hg: "hg = (h, gs)" by (cases hg)
    define s2 where "s2 = (if gs \<noteq> [] then extend_cached gs s1 else s1)"
    define L where "L = length (filter (\<lambda>kd. n \<in> set (names_of (dependency (snd kd)))) deps)"
    have c2: "calls n s2 = calls n s1" by (simp add: s2_def)
    from Cons.prems(2) kd dc Inr hg
    have body:
      "(if isgenerator h then
          (case next_py h (extend_cached [h] s2) of
             (Inl e, s3) \<Rightarrow> (coroutine_boundary (Inl e), s3)
           | (Inr v, s3) \<Rightarrow> dependencies_loop deps (res(param \<mapsto> v)) s3)
        else if iscoroutine h then
          (case await_py h s2 of
             (Inl e, s3) \<Rightarrow> (coroutine_boundary (Inl e), s3)
           | (Inr v, s3) \<Rightarrow> dependencies_loop deps (res(param \<mapsto> v)) s3)
        else if isasyncgen h then
          (case anext_py h (extend_cached [h] s2) of
             (Inl e, s3) \<Rightarrow> (coroutine_boundary (Inl e), s3)
           | (Inr v, s3) \<Rightarrow> dependencies_loop deps (res(param \<mapsto> v)) s3)
        else dependencies_loop deps (res(param \<mapsto> h)) s2) = (r, s')"
      by (simp add: Let_def s2_def split del: if_split cong: if_cong)
    have cont: "calls n s' \<le> calls n s1 + L"
      if "calls n (snd f) = calls n s1"
        and "(case f of
               (Inl e, s3) \<Rightarrow> (coroutine_boundary (Inl e), s3)
             | (Inr v, s3) \<Rightarrow> dependencies_loop deps (res(param \<mapsto> v)) s3) = (r, s')"
      for f :: "(pyexc + pyval) \<times> pystate"
    proof -
      obtain r3 s3 where f: "f = (r3, s3)" by (cases f)
      show ?thesis
      proof (cases r3)
        case (Inl e)
        with that f show ?thesis by simp
      next
        case (Inr v)
        with that f have dl: "dependencies_loop deps (res(param \<mapsto> v)) s3 = (r, s')"
          and e3: "calls n s3 = calls n s1" by simp_all
        from Cons.IH [OF rest dl] have "calls n s' \<le> calls n s3 + L" unfolding L_def .
        with e3 show ?thesis by simp
      qed
    qed
    have tail: "calls n s' \<le> calls n s1 + L"
    proof (cases "isgenerator h")
      case True
      with body cont [of "next_py h (extend_cached [h] s2)"] c2 show ?thesis
        by (simp add: calls_next_py)
    next
      case g: False
      show ?thesis
      proof (cases "iscoroutine h")
        case True
        with g body cont [of "await_py h s2"] c2 show ?thesis
          by (simp add: calls_await_py)
      next
        case c: False
        show ?thesis
        proof (cases "isasyncgen h")
          case True
          with g c body cont [of "anext_py h (extend_cached [h] s2)"] c2 show ?thesis
            by (simp add: calls_anext_py)
        next
          case False
          with g c body have dl: "dependencies_loop deps (res(param \<mapsto> h)) s2 = (r, s')"
            by simp
          from Cons.IH [OF rest dl] have "calls n s' \<le> calls n s2 + L" unfolding L_def .
          with c2 show ?thesis by simp
        qed
      qed
    qed
    with one kd show ?thesis by (auto simp: L_def)
  qed
qed

section \<open>Exactly one call when the resolution succeeds\<close>

lemma names_of_nodes:
  "names_of p = map pname (nodes_of p)"
  "names_of_params ps = map pname (nodes_of_params ps)"
  by (induction p and ps rule: names_of_names_of_params.induct) simp_all

lemma nodes_of_self: "p \<in> set (nodes_of p)"
  by (cases p) simp

lemma nodes_of_trans:
  "q \<in> set (nodes_of p) \<Longrightarrow> set (nodes_of q) \<subseteq> set (nodes_of p)"
  "q \<in> set (nodes_of_params ps) \<Longrightarrow> set (nodes_of q) \<subseteq> set (nodes_of_params ps)"
  by (induction p and ps rule: nodes_of_nodes_of_params.induct) auto

lemma closed_cache_empty: "closed_cache T Map.empty"
  by (simp add: closed_cache_def)

lemma resolve_exact:
  "acyclic_producer p \<Longrightarrow> consistent_names T \<Longrightarrow> set (nodes_of p) \<subseteq> T \<Longrightarrow>
   closed_cache T cache \<Longrightarrow> cache (pname p) = None \<Longrightarrow>
   resolve_dependencies self p cache s = (Inr v, c', s') \<Longrightarrow>
     (\<forall>n. calls n s' = calls n s + (if n \<in> set (names_of p) \<and> cache n = None then 1 else 0))
     \<and> dom c' = dom cache \<union> set (names_of_params (pparams p))
     \<and> closed_cache T (c'(pname p \<mapsto> v))"
  and resolve_params_exact:
  "acyclic_params ps \<Longrightarrow> consistent_names T \<Longrightarrow> set (nodes_of_params ps) \<subseteq> T \<Longrightarrow>
   closed_cache T cache \<Longrightarrow>
   resolve_params self ps kw cache s = (Inr kw', c', s') \<Longrightarrow>
     (\<forall>n. calls n s' = calls n s
            + (if n \<in> set (names_of_params ps) \<and> cache n = None then 1 else 0))
     \<and> dom c' = dom cache \<union> set (names_of_params ps)
     \<and> closed_cache T c'"
proof (induction self p cache s and self ps kw cache s
       arbitrary: v c' s' and kw' c' s'
       rule: resolve_dependencies_resolve_params.induct)
  case (1 self name params body cache s)
  let ?p = "Producer name params body"
  obtain r1 c1 s1 where rp: "resolve_params self params Map.empty cache s = (r1, c1, s1)"
    by (cases "resolve_params self params Map.empty cache s") auto
  from "1.prems" have ac: "acyclic_params params" and nn: "name \<notin> set (names_of_params params)"
    and cn: "cache name = None" and pT: "?p \<in> T"
    and sub: "set (nodes_of_params params) \<subseteq> T" by simp_all
  from rp "1.prems"(6) obtain kwv where r1: "r1 = Inr kwv" by (cases r1) auto
  obtain rb s2 where cu: "call_and_unwrap self name body kwv s1 = (rb, s2)"
    by (cases "call_and_unwrap self name body kwv s1") auto
  with rp r1 "1.prems"(6) have eq: "rb = Inr v" "c' = c1" "s' = s2" by simp_all
  from "1.IH" [OF ac "1.prems"(2) sub "1.prems"(4) rp [unfolded r1]]
  have cnt: "\<And>n. calls n s1 = calls n s
            + (if n \<in> set (names_of_params params) \<and> cache n = None then 1 else 0)"
    and dom1: "dom c1 = dom cache \<union> set (names_of_params params)"
    and cl1: "closed_cache T c1" by blast+
  have s2: "\<And>n. calls n s2 = calls n s1 + (if n = name then 1 else 0)"
    using calls_call_and_unwrap [OF cu] by simp
  have A: "calls n s2 = calls n s + (if n \<in> set (names_of ?p) \<and> cache n = None then 1 else 0)"
    for n
    using s2 [of n] cnt [of n] nn cn by (cases "n = name") simp_all
  have C: "closed_cache T (c1(name \<mapsto> v))"
    unfolding closed_cache_def
  proof (intro ballI impI)
    fix q assume q: "q \<in> T" and d: "pname q \<in> dom (c1(name \<mapsto> v))"
    show "set (names_of q) \<subseteq> dom (c1(name \<mapsto> v))"
    proof (cases "pname q = name")
      case True
      with "1.prems"(2) q pT have "set (names_of q) = set (names_of ?p)"
        unfolding consistent_names_def by (metis producer.sel(1))
      then show ?thesis using dom1 by auto
    next
      case False
      with d have "pname q \<in> dom c1" by auto
      with cl1 q have "set (names_of q) \<subseteq> dom c1" unfolding closed_cache_def by blast
      then show ?thesis by auto
    qed
  qed
  show ?case unfolding eq producer.sel using A dom1 C by blast
next
  case (2 self kw cache s)
  then show ?case by simp
next
  case (3 self name v ps kw cache s)
  from "3.prems" have ap: "acyclic_params ps" and sub: "set (nodes_of_params ps) \<subseteq> T"
    and rp: "resolve_params self ps (kw(name \<mapsto> v)) cache s = (Inr kw', c', s')" by simp_all
  from "3.IH" [OF ap "3.prems"(2) sub "3.prems"(4) rp] show ?case by simp
next
  case (4 self name dep_func ps kw cache s)
  from "4.prems" have ad: "acyclic_producer dep_func" and ap: "acyclic_params ps"
    and subq: "set (nodes_of dep_func) \<subseteq> T" and sub: "set (nodes_of_params ps) \<subseteq> T"
    by simp_all
  have qT: "dep_func \<in> T" using subq nodes_of_self by blast
  show ?case
  proof (cases "cache (pname dep_func)")
    case (Some dep_value)
    with "4.prems" have rp: "resolve_params self ps (kw(name \<mapsto> dep_value)) cache s = (Inr kw', c', s')"
      by simp
    from "4.IH"(3) [OF Some ap "4.prems"(2) sub "4.prems"(4) rp]
    have cnt: "\<And>n. calls n s' = calls n s
            + (if n \<in> set (names_of_params ps) \<and> cache n = None then 1 else 0)"
      and dom1: "dom c' = dom cache \<union> set (names_of_params ps)"
      and cl1: "closed_cache T c'" by blast+
    from Some "4.prems"(4) qT have inq: "set (names_of dep_func) \<subseteq> dom cache"
      unfolding closed_cache_def by blast
    have "calls n s' = calls n s
            + (if n \<in> set (names_of_params ((name, DependsOn dep_func) # ps)) \<and> cache n = None
               then 1 else 0)" for n
      using cnt [of n] inq by auto
    moreover have "dom c' = dom cache \<union> set (names_of_params ((name, DependsOn dep_func) # ps))"
      using dom1 inq by auto
    ultimately show ?thesis using cl1 by blast
  next
    case None
    obtain r1 c1 s1 where rd: "resolve_dependencies self dep_func cache s = (r1, c1, s1)"
      by (cases "resolve_dependencies self dep_func cache s") auto
    from rd None "4.prems"(5) obtain dep_value where r1: "r1 = Inr dep_value"
      by (cases r1) auto
    from "4.IH"(1) [OF None ad "4.prems"(2) subq "4.prems"(4) None rd [unfolded r1]]
    have cnt1: "\<And>n. calls n s1 = calls n s
            + (if n \<in> set (names_of dep_func) \<and> cache n = None then 1 else 0)"
      and dom1: "dom c1 = dom cache \<union> set (names_of_params (pparams dep_func))"
      and cl1: "closed_cache T (c1(pname dep_func \<mapsto> dep_value))" by blast+
    have domq: "dom (c1(pname dep_func \<mapsto> dep_value)) = dom cache \<union> set (names_of dep_func)"
      using dom1 by (cases dep_func) auto
    from rd r1 None "4.prems"(5)
    have rest: "resolve_params self ps (kw(name \<mapsto> dep_value))
                    (c1(pname dep_func \<mapsto> dep_value)) s1 = (Inr kw', c', s')" by simp
    from "4.IH"(2) [OF None rd [symmetric] r1 refl ap "4.prems"(2) sub cl1 rest]
    have cnt2: "\<And>n. calls n s' = calls n s1
            + (if n \<in> set (names_of_params ps) \<and> (c1(pname dep_func \<mapsto> dep_value)) n = None
               then 1 else 0)"
      and dom2: "dom c' = dom (c1(pname dep_func \<mapsto> dep_value)) \<union> set (names_of_params ps)"
      and cl2: "closed_cache T c'" by blast+
    have none2: "(c1(pname dep_func \<mapsto> dep_value)) n = None
                   \<longleftrightarrow> cache n = None \<and> n \<notin> set (names_of dep_func)" for n
    proof -
      have "(n \<in> dom (c1(pname dep_func \<mapsto> dep_value)))
              = (n \<in> dom cache \<or> n \<in> set (names_of dep_func))"
        unfolding domq by (rule Un_iff)
      then show ?thesis by (metis domIff)
    qed
    have "calls n s' = calls n s
            + (if n \<in> set (names_of_params ((name, DependsOn dep_func) # ps)) \<and> cache n = None
               then 1 else 0)" for n
      using cnt1 [of n] cnt2 [of n] none2 [of n] by auto
    moreover have "dom c' = dom cache \<union> set (names_of_params ((name, DependsOn dep_func) # ps))"
      using dom2 domq by auto
    ultimately show ?thesis using cl2 by blast
  qed
qed

lemma calls_Depends_call_exact:
  assumes "well_formed (dependency d)" and "Depends_call d s = (Inr x, s')"
  shows "calls n s' = calls n s + (if n \<in> set (names_of (dependency d)) then 1 else 0)"
proof -
  obtain r1 c1 s1 where rd:
    "resolve_dependencies (dep_id d) (dependency d) Map.empty s = (r1, c1, s1)"
    by (cases "resolve_dependencies (dep_id d) (dependency d) Map.empty s") auto
  with assms(2) obtain v where r1: "r1 = Inr v" and s': "s' = s1"
    by (cases r1) (simp_all add: Depends_call_def)
  from assms(1) have ac: "acyclic_producer (dependency d)"
    and co: "consistent_names (set (nodes_of (dependency d)))" by (simp_all add: well_formed_def)
  from resolve_exact [OF ac co subset_refl closed_cache_empty _ rd [unfolded r1]]
  have "calls n s1 = calls n s
          + (if n \<in> set (names_of (dependency d)) \<and> Map.empty n = None then 1 else 0)"
    by simp
  then show ?thesis using s' by simp
qed

lemma coroutine_boundary_Inl: "coroutine_boundary (Inl e) \<noteq> Inr v"
  by (simp add: coroutine_boundary_def)

lemma calls_dependencies_loop_exact:
  "\<forall>kd \<in> set deps. well_formed (dependency (snd kd)) \<Longrightarrow>
   dependencies_loop deps res s = (Inr out, s') \<Longrightarrow>
   calls n s' = calls n s
     + length (filter (\<lambda>kd. n \<in> set (names_of (dependency (snd kd)))) deps)"
proof (induction deps arbitrary: res s)
  case Nil
  then show ?case by simp
next
  case (Cons kd deps)
  obtain param d where kd: "kd = (param, d)" by (cases kd)
  from Cons.prems kd have wd: "well_formed (dependency d)"
    and rest: "\<forall>kd \<in> set deps. well_formed (dependency (snd kd))" by simp_all
  obtain r1 s1 where dc: "Depends_call d s = (r1, s1)" by (cases "Depends_call d s")
  from Cons.prems(2) kd dc obtain hg where r1: "r1 = Inr hg"
    by (cases r1) (simp_all add: coroutine_boundary_Inl)
  obtain h gs where hg: "hg = (h, gs)" by (cases hg)
  note one = calls_Depends_call_exact [OF wd dc [unfolded r1], of n]
  define s2 where "s2 = (if gs \<noteq> [] then extend_cached gs s1 else s1)"
  define L where "L = length (filter (\<lambda>kd. n \<in> set (names_of (dependency (snd kd)))) deps)"
  have c2: "calls n s2 = calls n s1" by (simp add: s2_def)
  from Cons.prems(2) kd dc r1 hg
  have body:
    "(if isgenerator h then
        (case next_py h (extend_cached [h] s2) of
           (Inl e, s3) \<Rightarrow> (coroutine_boundary (Inl e), s3)
         | (Inr v, s3) \<Rightarrow> dependencies_loop deps (res(param \<mapsto> v)) s3)
      else if iscoroutine h then
        (case await_py h s2 of
           (Inl e, s3) \<Rightarrow> (coroutine_boundary (Inl e), s3)
         | (Inr v, s3) \<Rightarrow> dependencies_loop deps (res(param \<mapsto> v)) s3)
      else if isasyncgen h then
        (case anext_py h (extend_cached [h] s2) of
           (Inl e, s3) \<Rightarrow> (coroutine_boundary (Inl e), s3)
         | (Inr v, s3) \<Rightarrow> dependencies_loop deps (res(param \<mapsto> v)) s3)
      else dependencies_loop deps (res(param \<mapsto> h)) s2) = (Inr out, s')"
    by (simp add: Let_def s2_def split del: if_split cong: if_cong)
  have cont: "calls n s' = calls n s1 + L"
    if "calls n (snd f) = calls n s1"
      and "(case f of
             (Inl e, s3) \<Rightarrow> (coroutine_boundary (Inl e), s3)
           | (Inr v, s3) \<Rightarrow> dependencies_loop deps (res(param \<mapsto> v)) s3) = (Inr out, s')"
    for f :: "(pyexc + pyval) \<times> pystate"
  proof -
    obtain r3 s3 where f: "f = (r3, s3)" by (cases f)
    show ?thesis
    proof (cases r3)
      case (Inl e)
      with that f show ?thesis by (simp add: coroutine_boundary_Inl)
    next
      case (Inr v)
      with that f have dl: "dependencies_loop deps (res(param \<mapsto> v)) s3 = (Inr out, s')"
        and e3: "calls n s3 = calls n s1" by simp_all
      from Cons.IH [OF rest dl] have "calls n s' = calls n s3 + L" unfolding L_def .
      with e3 show ?thesis by simp
    qed
  qed
  have tail: "calls n s' = calls n s1 + L"
  proof (cases "isgenerator h")
    case True
    with body cont [of "next_py h (extend_cached [h] s2)"] c2 show ?thesis
      by (simp add: calls_next_py)
  next
    case g: False
    show ?thesis
    proof (cases "iscoroutine h")
      case True
      with g body cont [of "await_py h s2"] c2 show ?thesis
        by (simp add: calls_await_py)
    next
      case c: False
      show ?thesis
      proof (cases "isasyncgen h")
        case True
        with g c body cont [of "anext_py h (extend_cached [h] s2)"] c2 show ?thesis
          by (simp add: calls_anext_py)
      next
        case False
        with g c body have dl: "dependencies_loop deps (res(param \<mapsto> h)) s2 = (Inr out, s')"
          by simp
        from Cons.IH [OF rest dl] have "calls n s' = calls n s2 + L" unfolding L_def .
        with c2 show ?thesis by simp
      qed
    qed
  qed
  with one kd show ?case by (auto simp: L_def)
qed

lemma resolve_params_head_value:
  assumes ac: "acyclic_params ps" and di: "distinct (a # map fst ps)"
    and cn: "cache (pname q) = None"
    and rd: "resolve_dependencies self q cache s = (Inr v, c1, s1)"
    and rp: "resolve_params self ((a, DependsOn q) # ps) kw cache s = (Inr kw', c', s')"
  shows "kw' a = Some v"
    and "(b, DependsOn q') \<in> set ps \<Longrightarrow> pname q' = pname q \<Longrightarrow> kw' b = Some v"
proof -
  from rp cn rd
  have rest: "resolve_params self ps (kw(a \<mapsto> v)) (c1(pname q \<mapsto> v)) s1 = (Inr kw', c', s')"
    by simp
  from di have d2: "distinct (map fst ps)" and na: "a \<notin> fst ` set ps" by auto
  from resolve_params_shares [OF ac d2 rest]
  have sh: "\<And>b q'. (b, DependsOn q') \<in> set ps \<Longrightarrow> kw' b = c' (pname q')"
    and keep: "\<And>x. x \<notin> fst ` set ps \<Longrightarrow> kw' x = (kw(a \<mapsto> v)) x" by blast+
  from keep [OF na] show "kw' a = Some v" by simp
  from resolve_params_resolved [OF ac rest] have "c1(pname q \<mapsto> v) \<subseteq>\<^sub>m c'"
    by (simp add: resolved_def)
  then have cq: "c' (pname q) = Some v" by (auto simp: map_le_def dom_def)
  show "kw' b = Some v" if "(b, DependsOn q') \<in> set ps" "pname q' = pname q"
    using sh [OF that(1)] that(2) cq by simp
qed

section \<open>The claims\<close>

subsection \<open>C1: where dependency resolution sits in the chain\<close>

text \<open>
  Claim C1 as stated (resolution is innermost, so an exception raised while resolving
  dependencies is caught by the exception-handling stage) fails: with the controller's own
  middleware, a dependency that raises \<^verbatim>\<open>ValueError\<close> makes the bound method raise that
  \<^verbatim>\<open>ValueError\<close> to the transport, and no abort is issued.
\<close>

theorem dependency_error_uncaught_counterexample:
  "fst (call_bound (bound_method UNARY_UNARY say_hello_failing_dependency) demo_request
          aio_context init_state) = ([], Some (ValueError ''boom''))
   \<and> aborts (snd (call_bound (bound_method UNARY_UNARY say_hello_failing_dependency)
                     demo_request aio_context init_state)) = []"
  by (simp add: demo_defs say_hello_failing_dependency_def failing_dependency_def aborts_def)

text \<open>
  Claim C1, amended. \<^verbatim>\<open>wraps_middleware\<close> sets \<^verbatim>\<open>dependencies\<close> on the outermost wrapper
  only. So for both flavours of the chain the bound method first resolves the dependencies,
  outside every middleware stage: an exception raised there leaves the bound method as it
  is (for the generator flavour, as the generator's end), and otherwise the chain runs with
  the results among its keyword arguments. The chain itself calls the middlewares in the
  order of the list, the first one outermost, and the method innermost.
\<close>

theorem dependency_resolution_outermost:
  "(case wraps_middleware ext mgr meth bound of
      FunctionMethodWrapper w \<Rightarrow>
        async_function_method_wrapper w request g s =
          (case get_dependencies_results (m_dependencies meth) s of
             (Inl e, s1) \<Rightarrow> (Inl e, s1)
           | (Inr res, s1) \<Rightarrow>
               AsyncFunctionWrapper_call
                 (wrap_function (mm_middlewares mgr) (UnaryUnaryMethod_call ext meth)
                    (m_name meth) bound)
                 request (Servicer g) (no_kwargs\<lparr>kw_dependencies_results := Some res\<rparr>) s1)
    | GeneratorMethodWrapper w \<Rightarrow>
        async_generator_method_wrapper w request g s =
          (case get_dependencies_results (m_dependencies meth) s of
             (Inl e, s1) \<Rightarrow> (([], Some (asyncgen_boundary e)), s1)
           | (Inr res, s1) \<Rightarrow>
               AsyncGeneratorWrapper_call
                 (wrap_generator (mm_iterable_middlewares mgr) (UnaryStreamMethod_call ext meth)
                    (m_name meth) bound)
                 request (Servicer g) (no_kwargs\<lparr>kw_dependencies_results := Some res\<rparr>) s1))
   \<and> AsyncFunctionWrapper_call (wrap_function (m # ms) f method_name bound) request context kw s =
       m (wrap_function ms f method_name bound) request context (merge_kwargs bound kw) s
   \<and> AsyncFunctionWrapper_call (wrap_function [] f method_name bound) request context kw s =
       f request context kw s
   \<and> AsyncGeneratorWrapper_call (wrap_generator (im # ims) fi method_name bound) request context kw s =
       im (wrap_generator ims fi method_name bound) request context (merge_kwargs bound kw) s
   \<and> AsyncGeneratorWrapper_call (wrap_generator [] fi method_name bound) request context kw s =
       fi request context kw s"
  by (simp add: wraps_middleware_def function_dispatch generator_dispatch
        AsyncFunctionWrapper_call_def AsyncGeneratorWrapper_call_def
        wrap_function_Nil wrap_function_Cons wrap_generator_Nil wrap_generator_Cons
        functools_partial_def functools_partial_iterable_def)

theorem dependency_resolution_outermost_witness:
  "(case wraps_middleware demo_extern (middleware_manager (Controller_init ''Greeter'' False))
           (method_of UNARY_UNARY say_hello_failing_dependency) bound_kwargs of
      FunctionMethodWrapper w \<Rightarrow>
        async_function_method_wrapper w demo_request aio_context init_state =
          (Inl (ValueError ''boom''), emit (Called ''failing_dependency'') init_state)
    | GeneratorMethodWrapper w \<Rightarrow> False)"
  using dependency_resolution_outermost [where ext = demo_extern
      and mgr = "middleware_manager (Controller_init ''Greeter'' False)"
      and meth = "method_of UNARY_UNARY say_hello_failing_dependency"
      and bound = bound_kwargs and request = demo_request and g = aio_context
      and s = init_state]
  by (simp add: wraps_middleware_def is_response_iterable_def method_of_def
        get_dependencies_results_def Dependencies_init_def say_hello_failing_dependency_def
        failing_dependency_def Depends_call_def call_and_unwrap_def call_fn_def
        coroutine_boundary_def isinstance_exc_def ValueError_def builtin_exc_def)

subsection \<open>C2: cleanup of generator dependencies\<close>

text \<open>
  Claim C2 on the code: a unary-unary method whose endpoint has the generator dependency
  \<^verbatim>\<open>sync_gen\<close>. When the endpoint raises, the trace of the call ends with the abort of the
  exception stage and the handle is never invoked again after the endpoint call; when the
  endpoint returns, the handle is invoked once after it.
\<close>

theorem cleanup_skipped_when_endpoint_raises:
  "trace (snd (call_bound (bound_method UNARY_UNARY say_hello_raising) demo_request aio_context
                 init_state))
     = [Called ''sync_gen'', NextCalled 0, Called ''say_hello'',
        Aborted UNKNOWN ''Test exception'']
   \<and> trace (snd (call_bound (bound_method UNARY_UNARY say_hello_gen) demo_request aio_context
                 init_state))
     = [Called ''sync_gen'', NextCalled 0, Called ''say_hello'', NextCalled 0]"
  by (simp add: demo_defs say_hello_raising_def say_hello_gen_def sync_gen_def)

subsection \<open>C3: one invocation of a producer per call\<close>

text \<open>
  Claim C3 as stated fails: two endpoint parameters that depend on the same producer
  (as \<^verbatim>\<open>sync_ctx\<close> and \<^verbatim>\<open>sync_dependency\<close> do in the repository's example) make the
  producer run twice in one call.
\<close>

theorem shared_producer_runs_twice_counterexample:
  "count_list
     (trace (snd (call_bound (bound_method UNARY_UNARY say_hello_twice) demo_request aio_context
                    init_state)))
     (Called ''sync_dependency'') = 2"
  by (simp add: demo_defs say_hello_twice_def sync_dependency_def)

text \<open>
  Claim C3, amended. The cache of \<^verbatim>\<open>resolve_dependencies\<close> is made anew for each endpoint
  parameter. In one call a producer is invoked at most once for each endpoint parameter
  whose dependencies mention it, however often they do, and exactly once for each when the
  resolution returns. Two parameters of one dependency function that depend on the same
  producer receive the same value: the one \<^verbatim>\<open>resolve_dependencies\<close> returned for the
  producer when the first of them was resolved.
\<close>

theorem producer_invoked_once_per_parameter:
  "((\<forall>kd \<in> set (endpoint_dependencies deps). acyclic_producer (dependency (snd kd))) \<longrightarrow>
      calls n (snd (get_dependencies_results deps s))
        \<le> calls n s + length (filter (\<lambda>kd. n \<in> set (names_of (dependency (snd kd))))
                                 (endpoint_dependencies deps)))
   \<and> ((\<forall>kd \<in> set (endpoint_dependencies deps). well_formed (dependency (snd kd))) \<longrightarrow>
        get_dependencies_results deps s = (Inr res, s1) \<longrightarrow>
        calls n s1
          = calls n s + length (filter (\<lambda>kd. n \<in> set (names_of (dependency (snd kd))))
                                  (endpoint_dependencies deps)))
   \<and> (acyclic_params ps \<longrightarrow> distinct (map fst ps) \<longrightarrow>
        resolve_params self ps kw cache s0 = (Inr kw', c', s') \<longrightarrow>
        (a, DependsOn p) \<in> set ps \<longrightarrow> (b, DependsOn q) \<in> set ps \<longrightarrow> pname p = pname q \<longrightarrow>
        kw' a = kw' b \<and> kw' a \<noteq> None)
   \<and> (acyclic_params ps2 \<longrightarrow> distinct (a2 # map fst ps2) \<longrightarrow> cache2 (pname p2) = None \<longrightarrow>
        resolve_dependencies self2 p2 cache2 s2 = (Inr v, c3, s3) \<longrightarrow>
        resolve_params self2 ((a2, DependsOn p2) # ps2) kw2 cache2 s2 = (Inr kw3, c4, s4) \<longrightarrow>
        kw3 a2 = Some v
        \<and> ((b2, DependsOn q2) \<in> set ps2 \<longrightarrow> pname q2 = pname p2 \<longrightarrow> kw3 b2 = Some v))"
proof (intro conjI impI)
  assume ac: "\<forall>kd \<in> set (endpoint_dependencies deps). acyclic_producer (dependency (snd kd))"
  obtain r sx where g: "dependencies_loop (endpoint_dependencies deps) Map.empty s = (r, sx)"
    by (cases "dependencies_loop (endpoint_dependencies deps) Map.empty s")
  from calls_dependencies_loop [OF ac g, of n] g
  show "calls n (snd (get_dependencies_results deps s))
        \<le> calls n s + length (filter (\<lambda>kd. n \<in> set (names_of (dependency (snd kd))))
                                 (endpoint_dependencies deps))"
    by (simp add: get_dependencies_results_def)
next
  assume wf: "\<forall>kd \<in> set (endpoint_dependencies deps). well_formed (dependency (snd kd))"
    and g: "get_dependencies_results deps s = (Inr res, s1)"
  from g have "dependencies_loop (endpoint_dependencies deps) Map.empty s = (Inr res, s1)"
    by (simp add: get_dependencies_results_def)
  from calls_dependencies_loop_exact [OF wf this]
  show "calls n s1
          = calls n s + length (filter (\<lambda>kd. n \<in> set (names_of (dependency (snd kd))))
                                  (endpoint_dependencies deps))" .
next
  assume h: "acyclic_params ps" "distinct (map fst ps)"
    "resolve_params self ps kw cache s0 = (Inr kw', c', s')"
    "(a, DependsOn p) \<in> set ps" "(b, DependsOn q) \<in> set ps" "pname p = pname q"
  from resolve_params_shares [OF h(1) h(2) h(3)] h(4) h(5) h(6)
  show "kw' a = kw' b" and "kw' a \<noteq> None" by auto
next
  assume h: "acyclic_params ps2" "distinct (a2 # map fst ps2)" "cache2 (pname p2) = None"
    "resolve_dependencies self2 p2 cache2 s2 = (Inr v, c3, s3)"
    "resolve_params self2 ((a2, DependsOn p2) # ps2) kw2 cache2 s2 = (Inr kw3, c4, s4)"
  from resolve_params_head_value(1) [OF h] show "kw3 a2 = Some v" .
  assume "(b2, DependsOn q2) \<in> set ps2" "pname q2 = pname p2"
  from resolve_params_head_value(2) [OF h this] show "kw3 b2 = Some v" .
qed

theorem producer_invoked_once_per_parameter_witness:
  "calls ''sync_dependency''
     (snd (get_dependencies_results (Dependencies_init say_hello_layers) init_state)) = 1
   \<and> (case resolve_params 0 (pparams layer_dependencies) Map.empty Map.empty init_state of
         (Inr kw', x) \<Rightarrow> kw' ''inner'' = Some (PStr ''sync dependency'')
                        \<and> kw' ''other'' = Some (PStr ''sync dependency'')
       | (Inl e, x) \<Rightarrow> False)"
proof -
  have wf: "\<forall>kd \<in> set (endpoint_dependencies (Dependencies_init say_hello_layers)).
              well_formed (dependency (snd kd))"
    by (simp add: Dependencies_init_def say_hello_layers_def layer_dependencies_def
          sync_dependency_def well_formed_def consistent_names_def)
  have f: "length (filter (\<lambda>kd. ''sync_dependency'' \<in> set (names_of (dependency (snd kd))))
             (endpoint_dependencies (Dependencies_init say_hello_layers))) = 1"
    by (simp add: Dependencies_init_def say_hello_layers_def layer_dependencies_def
          sync_dependency_def)
  have c0: "calls ''sync_dependency'' init_state = 0"
    by (simp add: calls_def init_state_def)
  obtain rg sg where g:
    "get_dependencies_results (Dependencies_init say_hello_layers) init_state = (rg, sg)"
    by (cases "get_dependencies_results (Dependencies_init say_hello_layers) init_state")
  have "\<not> isl rg"
    using g [symmetric]
    by (simp add: get_dependencies_results_def Dependencies_init_def say_hello_layers_def
          layer_dependencies_def sync_dependency_def Depends_call_def call_and_unwrap_def
          call_fn_def coroutine_boundary_def Let_def)
  then obtain res where rg: "rg = Inr res" by (cases rg) auto
  obtain rd cd sd where d:
    "resolve_dependencies 0 sync_dependency Map.empty init_state = (rd, cd, sd)"
    by (cases "resolve_dependencies 0 sync_dependency Map.empty init_state")
  have rd: "rd = Inr (PStr ''sync dependency'')"
    using d [symmetric]
    by (simp add: sync_dependency_def call_and_unwrap_def call_fn_def Let_def)
  obtain r c s where rp:
    "resolve_params 0 ((''inner'', DependsOn sync_dependency)
                        # [(''other'', DependsOn sync_dependency)])
       Map.empty Map.empty init_state = (r, c, s)"
    by (cases "resolve_params 0 ((''inner'', DependsOn sync_dependency)
                        # [(''other'', DependsOn sync_dependency)])
       Map.empty Map.empty init_state")
  have "\<not> isl r"
    using rp [symmetric]
    by (simp add: sync_dependency_def call_and_unwrap_def call_fn_def Let_def)
  then obtain kwv where r: "r = Inr kwv" by (cases r) auto
  note t = producer_invoked_once_per_parameter
    [where deps = "Dependencies_init say_hello_layers" and n = "''sync_dependency''"
       and s = init_state and res = res and ?s1.0 = sg
       and ?ps2.0 = "[(''other'', DependsOn sync_dependency)]" and ?a2.0 = "''inner''"
       and ?b2.0 = "''other''" and ?p2.0 = sync_dependency and ?q2.0 = sync_dependency
       and ?cache2.0 = Map.empty and ?self2.0 = 0 and ?s2.0 = init_state
       and v = "PStr ''sync dependency''" and ?c3.0 = cd and ?s3.0 = sd
       and ?kw2.0 = Map.empty and ?kw3.0 = kwv and ?c4.0 = c and ?s4.0 = s]
  from t [THEN conjunct2, THEN conjunct1] wf g [unfolded rg] f c0
  have one: "calls ''sync_dependency'' sg = 1" by simp
  have pre: "acyclic_params [(''other'', DependsOn sync_dependency)]"
      "distinct (''inner'' # map fst [(''other'', DependsOn sync_dependency)])"
      "(''other'', DependsOn sync_dependency) \<in> set [(''other'', DependsOn sync_dependency)]"
    by (simp_all add: sync_dependency_def)
  from t [THEN conjunct2, THEN conjunct2, THEN conjunct2] pre d [unfolded rd] rp [unfolded r]
  have k: "kwv ''inner'' = Some (PStr ''sync dependency'')"
    and k2: "kwv ''other'' = Some (PStr ''sync dependency'')" by blast+
  have "(case (Inr kwv :: pyexc + kwargs, c, s) of
           (Inr kw', x) \<Rightarrow> kw' ''inner'' = Some (PStr ''sync dependency'')
                          \<and> kw' ''other'' = Some (PStr ''sync dependency'')
         | (Inl e, x) \<Rightarrow> False)"
    unfolding prod.case sum.case using k k2 by (rule conjI)
  then have two: "(case resolve_params 0 (pparams layer_dependencies) Map.empty Map.empty
                         init_state of
           (Inr kw', x) \<Rightarrow> kw' ''inner'' = Some (PStr ''sync dependency'')
                          \<and> kw' ''other'' = Some (PStr ''sync dependency'')
         | (Inl e, x) \<Rightarrow> False)"
    unfolding layer_dependencies_def producer.sel rp [unfolded r] .
  from one g have "calls ''sync_dependency''
     (snd (get_dependencies_results (Dependencies_init say_hello_layers) init_state)) = 1"
    by simp
  with two show ?thesis by (rule conjI [rotated])
qed

subsection \<open>C4: lifetime of the dependency state\<close>

text \<open>
  Claim C4 on the code: the same method called twice. After the first call the handle
  registered during it is still in \<^verbatim>\<open>Dependencies._cached_dependencies\<close>, and the cleanup
  phase of the second call invokes it (twice) before the handle of the second call.
\<close>

theorem handles_survive_the_call:
  "dependencies_cached
     (snd (call_bound (bound_method UNARY_UNARY say_hello_gen) demo_request aio_context
             init_state)) = [PGen 0]
   \<and> trace
       (snd (call_bound (bound_method UNARY_UNARY say_hello_gen) demo_request aio_context
          (snd (call_bound (bound_method UNARY_UNARY say_hello_gen) demo_request aio_context
                  init_state))))
     = [Called ''sync_gen'', NextCalled 0, Called ''say_hello'', NextCalled 0,
        Called ''sync_gen'', NextCalled 1, Called ''say_hello'', NextCalled 0, NextCalled 0,
        NextCalled 1]"
  by (simp add: demo_defs say_hello_gen_def sync_gen_def)

subsection \<open>C5: the exception-handling stage\<close>

text \<open>
  Claim C5 as stated (for every call that raises a non-transport exception) fails: on a
  controller with a handler registered for \<^verbatim>\<open>TestExc\<close>, a dependency that raises
  \<^verbatim>\<open>TestExc\<close> makes the bound method raise it to the transport; the handler is not
  called and nothing is aborted. The same exception raised by the endpoint reaches the
  handler.
\<close>

theorem exception_outside_stage_counterexample:
  "fst (call_bound (bound_method_handling [''TestExc'' \<mapsto> exc_handler] UNARY_UNARY
                      say_hello_raising_dependency) demo_request aio_context init_state)
     = ([], Some (TestExc ''Test exception''))
   \<and> aborts (snd (call_bound (bound_method_handling [''TestExc'' \<mapsto> exc_handler] UNARY_UNARY
                        say_hello_raising_dependency) demo_request aio_context init_state))
     = []
   \<and> aborts (snd (call_bound (bound_method_handling [''TestExc'' \<mapsto> exc_handler] UNARY_UNARY
                        say_hello_raising) demo_request aio_context init_state))
     = [(INVALID_ARGUMENT, ''Some exception'')]"
  by (simp add: demo_defs bound_method_handling_def add_exception_handler_def
        say_hello_raising_dependency_def raising_dependency_def say_hello_raising_def
        sync_gen_def exc_handler_def aborts_def)

text \<open>
  Claim C5, amended: when the stages inside the exception-handling stage (the inner
  middlewares, the method, the endpoint) raise an exception that is an \<^verbatim>\<open>Exception\<close> but
  no \<^verbatim>\<open>grpc.RpcError\<close>, both exception middlewares look the handler up under the class of
  the exception alone. Without an entry for that class the stage aborts with \<^verbatim>\<open>UNKNOWN\<close>
  and the text of the exception. With an entry, the handler is called with the request,
  the context and the exception; the aborts it issues stand first, and the stage adds the
  fallback abort exactly when the handler returns. (The transport of \<^verbatim>\<open>grpc.aio\<close> raises
  from \<^verbatim>\<open>abort\<close>, so a handler that aborts does not return; with a transport whose
  \<^verbatim>\<open>abort\<close> returns, the fallback follows the handler's abort.)
\<close>

theorem exception_stage_exact_kind:
  assumes "isinstance_exc exc ''Exception''" and "\<not> isinstance_exc exc ''RpcError''"
    and "AsyncFunctionWrapper_call method request (Controller c) kw s = (Inl exc, s1)"
    and "AsyncGeneratorWrapper_call gmethod request (Controller c) kw s = ((items, Some exc), s2)"
  shows
    "(hs (exc_kind exc) = None \<longrightarrow>
        NotIterableExceptionMiddleware hs method request (Controller c) kw s =
          abort c UNKNOWN (exc_text exc) s1
      \<and> aborts (snd (NotIterableExceptionMiddleware hs method request (Controller c) kw s)) =
          aborts s1 @ [(UNKNOWN, exc_text exc)]
      \<and> IterableExceptionMiddleware hs gmethod request (Controller c) kw s =
          ends items (abort c UNKNOWN (exc_text exc) s2)
      \<and> aborts (snd (IterableExceptionMiddleware hs gmethod request (Controller c) kw s)) =
          aborts s2 @ [(UNKNOWN, exc_text exc)])
     \<and> (\<forall>h. hs (exc_kind exc) = Some h \<longrightarrow>
        NotIterableExceptionMiddleware hs method request (Controller c) kw s =
          (case h request c exc s1 of
             (Inl e, s') \<Rightarrow> (Inl e, s')
           | (Inr v, s') \<Rightarrow> abort c UNKNOWN (exc_text exc) s')
      \<and> aborts (snd (NotIterableExceptionMiddleware hs method request (Controller c) kw s)) =
          aborts (snd (h request c exc s1))
            @ (case fst (h request c exc s1) of
                 Inl e \<Rightarrow> [] | Inr v \<Rightarrow> [(UNKNOWN, exc_text exc)])
      \<and> IterableExceptionMiddleware hs gmethod request (Controller c) kw s =
          (case h request c exc s2 of
             (Inl e, s') \<Rightarrow> ((items, Some e), s')
           | (Inr v, s') \<Rightarrow> ends items (abort c UNKNOWN (exc_text exc) s'))
      \<and> aborts (snd (IterableExceptionMiddleware hs gmethod request (Controller c) kw s)) =
          aborts (snd (h request c exc s2))
            @ (case fst (h request c exc s2) of
                 Inl e \<Rightarrow> [] | Inr v \<Rightarrow> [(UNKNOWN, exc_text exc)]))"
proof (intro conjI impI allI)
  assume n: "hs (exc_kind exc) = None"
  show a: "NotIterableExceptionMiddleware hs method request (Controller c) kw s =
          abort c UNKNOWN (exc_text exc) s1"
    using assms n by (simp add: NotIterableExceptionMiddleware_def)
  show "aborts (snd (NotIterableExceptionMiddleware hs method request (Controller c) kw s)) =
          aborts s1 @ [(UNKNOWN, exc_text exc)]"
    by (simp add: a aborts_abort)
  show b: "IterableExceptionMiddleware hs gmethod request (Controller c) kw s =
          ends items (abort c UNKNOWN (exc_text exc) s2)"
    using assms n by (simp add: IterableExceptionMiddleware_def)
  show "aborts (snd (IterableExceptionMiddleware hs gmethod request (Controller c) kw s)) =
          aborts s2 @ [(UNKNOWN, exc_text exc)]"
    by (simp add: b aborts_ends aborts_abort)
next
  fix h assume h: "hs (exc_kind exc) = Some h"
  show a: "NotIterableExceptionMiddleware hs method request (Controller c) kw s =
          (case h request c exc s1 of
             (Inl e, s') \<Rightarrow> (Inl e, s')
           | (Inr v, s') \<Rightarrow> abort c UNKNOWN (exc_text exc) s')"
    using assms h by (simp add: NotIterableExceptionMiddleware_def)
  show "aborts (snd (NotIterableExceptionMiddleware hs method request (Controller c) kw s)) =
          aborts (snd (h request c exc s1))
            @ (case fst (h request c exc s1) of
                 Inl e \<Rightarrow> [] | Inr v \<Rightarrow> [(UNKNOWN, exc_text exc)])"
    by (simp add: a aborts_abort split: prod.splits sum.splits)
  show b: "IterableExceptionMiddleware hs gmethod request (Controller c) kw s =
          (case h request c exc s2 of
             (Inl e, s') \<Rightarrow> ((items, Some e), s')
           | (Inr v, s') \<Rightarrow> ends items (abort c UNKNOWN (exc_text exc) s'))"
    using assms h by (simp add: IterableExceptionMiddleware_def)
  show "aborts (snd (IterableExceptionMiddleware hs gmethod request (Controller c) kw s)) =
          aborts (snd (h request c exc s2))
            @ (case fst (h request c exc s2) of
                 Inl e \<Rightarrow> [] | Inr v \<Rightarrow> [(UNKNOWN, exc_text exc)])"
    by (simp add: b aborts_ends aborts_abort split: prod.splits sum.splits)
qed

theorem exception_stage_exact_kind_witness:
  "isinstance_exc (DerivedExc ''boom'') ''Exception''
   \<and> \<not> isinstance_exc (DerivedExc ''boom'') ''RpcError''
   \<and> isinstance_exc (DerivedExc ''boom'') ''TestExc''
   \<and> demo_handlers ''TestExc'' = Some exc_handler
   \<and> demo_handlers ''DerivedExc'' = None
   \<and> aborts (snd (NotIterableExceptionMiddleware demo_handlers
                     (raising_wrapper (DerivedExc ''boom'')) demo_request
                     (Controller demo_context) no_kwargs init_state))
       = [(UNKNOWN, ''boom'')]
   \<and> aborts (snd (IterableExceptionMiddleware demo_handlers
                     (raising_generator_wrapper (DerivedExc ''boom'')) demo_request
                     (Controller demo_context) no_kwargs init_state))
       = [(UNKNOWN, ''boom'')]
   \<and> aborts (snd (NotIterableExceptionMiddleware demo_handlers
                     (raising_wrapper (TestExc ''boom'')) demo_request
                     (Controller demo_context) no_kwargs init_state))
       = [(INVALID_ARGUMENT, ''Some exception'')]
   \<and> aborts (snd (IterableExceptionMiddleware demo_handlers
                     (raising_generator_wrapper (TestExc ''boom'')) demo_request
                     (Controller demo_context) no_kwargs init_state))
       = [(INVALID_ARGUMENT, ''Some exception'')]
   \<and> aborts (snd (NotIterableExceptionMiddleware silent_handlers
                     (raising_wrapper (TestExc ''boom'')) demo_request
                     (Controller demo_context) no_kwargs init_state))
       = [(UNKNOWN, ''boom'')]
   \<and> aborts (snd (NotIterableExceptionMiddleware demo_handlers
                     (raising_wrapper (TestExc ''boom'')) demo_request
                     (Controller quiet_demo_context) no_kwargs init_state))
       = [(INVALID_ARGUMENT, ''Some exception''), (UNKNOWN, ''boom'')]"
proof -
  have d1: "isinstance_exc (DerivedExc ''boom'') ''Exception''"
    and d2: "\<not> isinstance_exc (DerivedExc ''boom'') ''RpcError''"
    and t1: "isinstance_exc (TestExc ''boom'') ''Exception''"
    and t2: "\<not> isinstance_exc (TestExc ''boom'') ''RpcError''"
    by (simp_all add: isinstance_exc_def DerivedExc_def TestExc_def)
  have hd: "demo_handlers (exc_kind (DerivedExc ''boom'')) = None"
    and ht: "demo_handlers (exc_kind (TestExc ''boom'')) = Some exc_handler"
    by (simp_all add: demo_handlers_def base_exception_handlers_def DerivedExc_def TestExc_def)
  note d = exception_stage_exact_kind [OF d1 d2 raising_wrapper_call
      raising_generator_wrapper_call, where hs = demo_handlers and c = demo_context
      and request = demo_request and kw = no_kwargs and s = init_state]
  note t = exception_stage_exact_kind [OF t1 t2 raising_wrapper_call
      raising_generator_wrapper_call, where hs = demo_handlers and c = demo_context
      and request = demo_request and kw = no_kwargs and s = init_state]
  have hs: "silent_handlers (exc_kind (TestExc ''boom'')) = Some silent_handler"
    by (simp add: silent_handlers_def base_exception_handlers_def TestExc_def)
  note q = exception_stage_exact_kind [OF t1 t2 raising_wrapper_call
      raising_generator_wrapper_call, where hs = silent_handlers and c = demo_context
      and request = demo_request and kw = no_kwargs and s = init_state]
  note u = exception_stage_exact_kind [OF t1 t2 raising_wrapper_call
      raising_generator_wrapper_call, where hs = demo_handlers and c = quiet_demo_context
      and request = demo_request and kw = no_kwargs and s = init_state]
  show ?thesis
    using d t q u hd ht hs d1 d2
    by (simp add: aborts_init aborts_ends aborts_emit_Aborted isinstance_exc_def DerivedExc_def
          TestExc_def exc_handler_def silent_handler_def abort_def grpc_abort_def
          demo_context_def quiet_demo_context_def ControllerContext_init_def aio_context_def
          quiet_context_def ends_def)
qed

subsection \<open>C6: a missing method descriptor\<close>

text \<open>
  Claim C6 on the code: \<^verbatim>\<open>wraps_middleware\<close> called without a method descriptor. The
  sequence-producing chain ends normally with no item and raises nothing; the single-result
  chain raises the exception of the context middleware.
\<close>

theorem missing_descriptor_iterable_returns_empty:
  "call_bound (unbound_method UNARY_STREAM unary_stream) demo_request aio_context init_state
     = (([], None), init_state)
   \<and> fst (call_bound (unbound_method UNARY_UNARY say_hello) demo_request aio_context init_state)
     = ([], Some (Exception_exc ''Not found descriptor in context middleware''))"
  by (simp add: demo_defs unary_stream_def say_hello_def)

subsection \<open>C7: streaming responses\<close>

text \<open>
  Claim C7 on the code: the endpoint \<^verbatim>\<open>unary_stream\<close> of the repository's example, which
  yields three items. \<^verbatim>\<open>self.endpoint\<close> is the cleanup wrapper, a coroutine function, so
  \<^verbatim>\<open>async for\<close> raises \<^verbatim>\<open>TypeError\<close> before the endpoint runs: the call yields nothing and
  is aborted with \<^verbatim>\<open>UNKNOWN\<close>.
\<close>

theorem unary_stream_yields_nothing:
  "fst (call_bound (bound_method UNARY_STREAM unary_stream) demo_request aio_context init_state)
     = ([], Some AbortError)
   \<and> aborts (snd (call_bound (bound_method UNARY_STREAM unary_stream) demo_request aio_context
                     init_state))
     = [(UNKNOWN, async_for_type_error)]"
  by (simp add: demo_defs unary_stream_def aborts_def)

subsection \<open>C8: serialization of a result\<close>

text \<open>
  Claim C8: \<^verbatim>\<open>serialize_response\<close> passes a result of the wire class through unchanged;
  otherwise, with a response model, it validates the result against the model and encodes
  the JSON dump of the validated value; otherwise, a dictionary is encoded directly.
\<close>

theorem serialize_response_policy:
  "(isinstance_msg response (output_type c) \<longrightarrow>
      serialize_response ext m response c = Inr response)
   \<and> (\<not> isinstance_msg response (output_type c) \<longrightarrow> response_model m = Some rm \<longrightarrow>
      serialize_response ext m response c =
        (case model_validate ext rm response of
           Inl e \<Rightarrow> Inl e
         | Inr validated \<Rightarrow>
             json_to_message ext (model_dump_json ext validated) (output_type c)))
   \<and> (\<not> isinstance_msg response (output_type c) \<longrightarrow> response_model m = None \<longrightarrow>
      isdict response \<longrightarrow>
      serialize_response ext m response c =
        dict_to_message ext response (output_type c))"
  by (simp add: serialize_response_def)

theorem serialize_response_policy_witness:
  "serialize_response demo_extern (demo_method None) (PMessage ''HelloReply'' []) demo_context
     = Inr (PMessage ''HelloReply'' [])
   \<and> serialize_response demo_extern (demo_method (Some (Model ''HelloReply'' True)))
        hello_reply demo_context = Inr (PMessage ''HelloReply'' [])
   \<and> serialize_response demo_extern (demo_method None) hello_reply demo_context
     = Inr (PMessage ''HelloReply'' [(''message'', PStr ''Hello World'')])"
  using serialize_response_policy [where response = "PMessage ''HelloReply'' []"
          and c = demo_context and ext = demo_extern and m = "demo_method None"]
        serialize_response_policy [where response = hello_reply and c = demo_context
          and ext = demo_extern and m = "demo_method (Some (Model ''HelloReply'' True))"
          and rm = "Model ''HelloReply'' True"]
        serialize_response_policy [where response = hello_reply and c = demo_context
          and ext = demo_extern and m = "demo_method None"]
  by (simp add: demo_context_def ControllerContext_init_def demo_descriptor_def demo_method_def
        hello_reply_def demo_extern_def)

subsection \<open>C9: the default handler of validation errors\<close>

text \<open>
  Claim C9 as stated (a client-error status) fails: the handler aborts with \<^verbatim>\<open>UNKNOWN\<close>,
  the status of the generic fallback.
\<close>

theorem validation_handler_status_counterexample:
  "aborts (snd (pydantic_exception_handler demo_request demo_context
                  (ValidationError ''1 validation error''
                     [ErrorDetails ''Field required'' ''(0,)'' ''{}'']) init_state))
     = [(UNKNOWN, ''Field required. Location: (0,). Input: {}'')]
   \<and> \<not> spec_client_error_status UNKNOWN"
  by (simp add: pydantic_exception_handler_def ValidationError_def aborts_abort aborts_init)

text \<open>
  Claim C9, amended: the handler registered for \<^verbatim>\<open>ValidationError\<close> aborts with the
  status \<^verbatim>\<open>UNKNOWN\<close>, and the details carry the message, the location and the input of
  the first reported error.
\<close>

theorem pydantic_handler_aborts_unknown:
  assumes "exc_payload exc = ValidationPayload (err # rest)"
  shows "base_exception_handlers ''ValidationError'' = Some pydantic_exception_handler
    \<and> pydantic_exception_handler request context exc s =
        abort context UNKNOWN
          (err_msg err @ ''. Location: '' @ err_loc err @ ''. Input: '' @ err_input err) s
    \<and> aborts (snd (pydantic_exception_handler request context exc s)) =
        aborts s @ [(UNKNOWN,
          err_msg err @ ''. Location: '' @ err_loc err @ ''. Input: '' @ err_input err)]"
  using assms
  by (simp add: base_exception_handlers_def pydantic_exception_handler_def aborts_abort)

theorem pydantic_handler_aborts_unknown_witness:
  "exc_payload (ValidationError ''1 validation error''
                  [ErrorDetails ''Field required'' ''(0,)'' ''{}''])
     = ValidationPayload [ErrorDetails ''Field required'' ''(0,)'' ''{}'']
   \<and> aborts (snd (pydantic_exception_handler demo_request demo_context
                  (ValidationError ''1 validation error''
                     [ErrorDetails ''Field required'' ''(0,)'' ''{}'']) init_state))
     = [(UNKNOWN, ''Field required. Location: (0,). Input: {}'')]"
proof -
  have h: "exc_payload (ValidationError ''1 validation error''
                  [ErrorDetails ''Field required'' ''(0,)'' ''{}''])
     = ValidationPayload (ErrorDetails ''Field required'' ''(0,)'' ''{}'' # [])"
    by (simp add: ValidationError_def)
  show ?thesis
    using h pydantic_handler_aborts_unknown [OF h, of demo_request demo_context init_state]
    by (simp add: aborts_init aborts_abort)
qed

subsection \<open>C10: registering a method under a name already taken\<close>

text \<open>
  Claim C10: \<^verbatim>\<open>add_method\<close> raises exactly when the constructor of the method does, whatever
  the controller already holds. So as long as each method can be constructed, a sequence of
  registrations never raises, whatever the names are, and afterwards the controller holds
  under each name the method of the last registration that resolved to this name.
\<close>

theorem add_methods_last_wins:
  assumes "\<forall>x \<in> set regs. \<exists>m. BaseMethod_init (fst x) (snd x) = Inr m"
  shows "isl (add_method ctl mode reg) = isl (BaseMethod_init mode reg)
     \<and> (\<exists>ctl'. add_methods ctl regs = Inr ctl'
           \<and> (\<forall>n. methods ctl' n =
                 (case find (\<lambda>x. resolved_name (snd x) = n) (rev regs) of
                    None \<Rightarrow> methods ctl n
                  | Some x \<Rightarrow>
                      (case BaseMethod_init (fst x) (snd x) of
                         Inr m \<Rightarrow> Some m | Inl e \<Rightarrow> None))))"
proof
  show "isl (add_method ctl mode reg) = isl (BaseMethod_init mode reg)"
    by (simp add: add_method_def split: sum.splits)
next
  show "\<exists>ctl'. add_methods ctl regs = Inr ctl'
           \<and> (\<forall>n. methods ctl' n =
                 (case find (\<lambda>x. resolved_name (snd x) = n) (rev regs) of
                    None \<Rightarrow> methods ctl n
                  | Some x \<Rightarrow>
                      (case BaseMethod_init (fst x) (snd x) of
                         Inr m \<Rightarrow> Some m | Inl e \<Rightarrow> None)))"
  using assms
proof (induction regs arbitrary: ctl)
  case Nil
  then show ?case by simp
next
  case (Cons x regs)
  obtain mode reg where x: "x = (mode, reg)" by (cases x)
  from Cons.prems x obtain m where m: "BaseMethod_init mode reg = Inr m" by auto
  let ?ctl1 = "ctl\<lparr>methods := (methods ctl)(m_name m \<mapsto> m)\<rparr>"
  from Cons.prems have "\<forall>y \<in> set regs. \<exists>m. BaseMethod_init (fst y) (snd y) = Inr m" by simp
  from Cons.IH [OF this, of ?ctl1] obtain ctl' where
    c: "add_methods ?ctl1 regs = Inr ctl'"
    and f: "\<And>n. methods ctl' n =
                 (case find (\<lambda>x. resolved_name (snd x) = n) (rev regs) of
                    None \<Rightarrow> methods ?ctl1 n
                  | Some x \<Rightarrow>
                      (case BaseMethod_init (fst x) (snd x) of
                         Inr m \<Rightarrow> Some m | Inl e \<Rightarrow> None))" by blast
  have "add_methods ctl (x # regs) = Inr ctl'"
    using c m x by (simp add: add_method_def)
  moreover have "methods ctl' n =
                 (case find (\<lambda>x. resolved_name (snd x) = n) (rev (x # regs)) of
                    None \<Rightarrow> methods ctl n
                  | Some x \<Rightarrow>
                      (case BaseMethod_init (fst x) (snd x) of
                         Inr m \<Rightarrow> Some m | Inl e \<Rightarrow> None))" for n
    using f [of n] m x BaseMethod_init_name [OF m]
    by (auto simp: find_snoc split: option.splits)
  ultimately show ?case by blast
qed
qed

theorem add_methods_last_wins_witness:
  "\<exists>ctl'. add_methods (Controller_init ''Greeter'' False) demo_registrations = Inr ctl'
         \<and> map_option m_endpoint (methods ctl' ''SayHello'') = Some say_hello_gen
         \<and> methods ctl' ''SayAgain'' = None"
proof -
  have h: "\<forall>x \<in> set demo_registrations. \<exists>m. BaseMethod_init (fst x) (snd x) = Inr m"
    by (simp add: demo_registrations_def BaseMethod_init_def registration_of_def say_hello_def
          say_hello_gen_def or_model_def)
  from add_methods_last_wins [OF h, of "Controller_init ''Greeter'' False", THEN conjunct2]
  obtain ctl' where c: "add_methods (Controller_init ''Greeter'' False) demo_registrations = Inr ctl'"
    and f: "\<And>n. methods ctl' n =
                 (case find (\<lambda>x. resolved_name (snd x) = n) (rev demo_registrations) of
                    None \<Rightarrow> methods (Controller_init ''Greeter'' False) n
                  | Some x \<Rightarrow>
                      (case BaseMethod_init (fst x) (snd x) of
                         Inr m \<Rightarrow> Some m | Inl e \<Rightarrow> None))" by blast
  have "map_option m_endpoint (methods ctl' ''SayHello'') = Some say_hello_gen"
    unfolding f
    by (simp add: demo_registrations_def BaseMethod_init_def registration_of_def say_hello_def
          say_hello_gen_def or_model_def resolved_name_def)
  moreover have "methods ctl' ''SayAgain'' = None"
    unfolding f
    by (simp add: demo_registrations_def registration_of_def say_hello_def
          say_hello_gen_def resolved_name_def to_pascal_case_def upper_char_def lower_char_def
          Controller_init_def)
  ultimately show ?thesis using c by blast
qed

end
